theory Spec2Isabelle
  imports Complex_Main "HOL-Library.Sublist"
begin

section \<open>Values, exceptions and the outside world\<close>

text \<open>
  The repository is Python glue around three outside parties: an Oracle database
  (through \<^verbatim>\<open>oracledb\<close> connections and cursors), the PGX server (through
  \<^verbatim>\<open>requests\<close>) and CSV files (through \<^verbatim>\<open>pandas\<close>). Every call that leaves
  the process is recorded as an \<open>event\<close> in a trace, in program order. What the outside
  party answers is not computed here: it is read from a \<open>world\<close>, a record of oracles
  indexed by the position of the call in the trace. A theorem quantified over every
  world therefore covers every behaviour of the database, the server and the file
  system, failures included.

  Exceptions are values. The type \<open>exn\<close> lists subclasses of Python's
  \<^verbatim>\<open>Exception\<close>; \<^verbatim>\<open>KeyboardInterrupt\<close> and \<^verbatim>\<open>SystemExit\<close> (which an
  \<^verbatim>\<open>except Exception\<close> clause does not catch) are not modelled.
\<close>

datatype exn =
    DatabaseError
  | InterfaceError
  | AttributeError
  | TypeError
  | KeyError
  | IndexError
  | ValueError
  | OverflowError
  | IntCastingNaNError
  | HTTPError
  | JSONDecodeError
  | RequestException
  | OtherError

text \<open>\<^verbatim>\<open>except oracledb.DatabaseError\<close> catches exactly the database errors.\<close>

fun is_DatabaseError :: "exn \<Rightarrow> bool" where
  "is_DatabaseError DatabaseError = True"
| "is_DatabaseError _ = False"

text \<open>
  A number as pandas holds it: an integer, a finite float, an infinity (\<open>NInf True\<close>
  is the positive one) or NaN (the missing value). Float rounding and the 64-bit range
  are not modelled: an integer is exact.
\<close>

datatype num = NInt int | NFlt real | NInf bool | NNaN

datatype cell = Str string | Num num

text \<open>
  A DataFrame: the column labels in order, and the rows. A row gives a cell for every
  label, so a frame is rectangular by construction; only the labels in \<open>columns\<close>
  exist, and indexing a row by any other label raises \<^verbatim>\<open>KeyError\<close>.
\<close>

record frame =
  columns :: "string list"
  rows :: "(string \<Rightarrow> cell) list"

datatype json =
    JNull
  | JBool bool
  | JInt int
  | JFloat real
  | JString string
  | JArray "json list"
  | JObject "(string \<times> json) list"

record response =
  status_code :: nat
  body :: "json option"

text \<open>One row of \<^verbatim>\<open>user_tab_columns\<close> as \<^verbatim>\<open>copy_table\<close> selects it:
  column_name, data_type, data_length, data_precision (\<open>None\<close> for NULL), nullable.\<close>

type_synonym column_info = "string \<times> string \<times> nat \<times> nat option \<times> string"

datatype conn = AnalyzerConn | SourceConn | DestConn

datatype http_method = GET | POST | DELETE

datatype event =
    DbConnect nat
  | ConnectTo conn
  | OpenCursor conn
  | Sleep nat
  | HttpRequest http_method string "json option"
  | ReadCsv string
  | ReadSql conn string
  | Execute conn string "cell list"
  | ExecuteMany conn string "cell list list"
  | Fetchall conn
  | Fetchone conn
  | Commit conn
  | CloseCursor conn
  | CloseConn conn
  | GraphDestroy
  | PgxSessionClose
  | WriteCsv string

record world =
  raises :: "nat \<Rightarrow> exn option"
  frame_reply :: "nat \<Rightarrow> frame"
  catalog_reply :: "nat \<Rightarrow> column_info list"
  count_reply :: "nat \<Rightarrow> int option"
  http_reply :: "nat \<Rightarrow> response"
  parse_number :: "string \<Rightarrow> num option"
  float_repr :: "real \<Rightarrow> string"

text \<open>
  The log lines of \<^verbatim>\<open>PestDataAnalyzer\<close> that mark its progress: the first line each
  method of the pipeline logs, the lines that open and end the pipeline, and the line
  that reports the closed connection. The other logger calls are not modelled; none
  of them changes the control flow.
\<close>

datatype log_line =
    LogStarting
  | LogConnecting
  | LogLoading string
  | LogClearing
  | LogCreatingNodes
  | LogCreatingInspections nat
  | LogGatheringStats
  | LogGraphLoaded
  | LogCompleted
  | LogFailed exn
  | LogCleaningUp
  | LogConnectionClosed

text \<open>The messages \<^verbatim>\<open>copy_to_freepdb1.py\<close> prints, with their arguments, and the
  log lines of the analyzer.\<close>

datatype msg =
    MCopying string
  | MRead nat
  | MDropped
  | MCreated
  | MInserted nat
  | MCopied string
  | MError string exn
  | MCount string int
  | Log log_line

text \<open>
  The trace records each outside call together with what happened to it: \<open>None\<close>
  when it returned, \<open>Some x\<close> when it raised \<open>x\<close>.
\<close>

type_synonym observed = "event \<times> exn option"

record io =
  trace :: "observed list"
  out :: "msg list"

text \<open>
  \<open>call w e s\<close> performs one outside call: the world says whether the call raises,
  and the event is appended to the trace with that outcome. The index of a call is
  the length of the trace before it.
\<close>

definition call :: "world \<Rightarrow> event \<Rightarrow> 'a io_scheme \<Rightarrow> (exn + unit) \<times> 'a io_scheme" where
  "call w e s =
     (let x = raises w (length (trace s))
      in ((case x of Some err \<Rightarrow> Inl err | None \<Rightarrow> Inr ()),
          s\<lparr>trace := trace s @ [(e, x)]\<rparr>))"

text \<open>Sequencing: an exception skips what follows.\<close>

definition and_then ::
  "(exn + 'a) \<times> 's \<Rightarrow> ('a \<Rightarrow> 's \<Rightarrow> (exn + 'b) \<times> 's) \<Rightarrow> (exn + 'b) \<times> 's" where
  "and_then m f = (case m of (Inl e, s) \<Rightarrow> (Inl e, s) | (Inr x, s) \<Rightarrow> f x s)"

definition print :: "msg \<Rightarrow> 'a io_scheme \<Rightarrow> 'a io_scheme" where
  "print m s = s\<lparr>out := out s @ [m]\<rparr>"

text \<open>\<^verbatim>\<open>time.sleep\<close> does not raise.\<close>

definition sleep :: "nat \<Rightarrow> 'a io_scheme \<Rightarrow> 'a io_scheme" where
  "sleep d s = s\<lparr>trace := trace s @ [(Sleep d, None)]\<rparr>"

section \<open>PestDataAnalyzer\<close>

text \<open>
  The fields of \<^verbatim>\<open>PestDataAnalyzer\<close> that its methods read or assign. A connection
  and a cursor are identified by the attempt that opened them; \<^verbatim>\<open>pgx_session\<close> and
  \<^verbatim>\<open>graph\<close> are only ever assigned \<^verbatim>\<open>None\<close>, so a flag says whether they are set.
  The logger is not modelled: its calls do not change the control flow.
\<close>

record analyzer = io +
  csv_path :: string
  pgx_base_url :: string
  connection :: "nat option"
  cursor :: "nat option"
  pgx_session :: bool
  graph :: bool
  df :: "frame option"

subsection \<open>connect\<close>

definition max_retries :: nat where
  "max_retries = 30"

definition retry_delay :: nat where
  "retry_delay = 5"

text \<open>The body of the \<^verbatim>\<open>try\<close> block of one attempt: connect, then open a cursor.\<close>

definition try_connect :: "world \<Rightarrow> nat \<Rightarrow> analyzer \<Rightarrow> (exn + unit) \<times> analyzer" where
  "try_connect w attempt s =
     (case call w (DbConnect attempt) s of
        (Inl e, s1) \<Rightarrow> (Inl e, s1)
      | (Inr _, s1) \<Rightarrow>
          (case call w (OpenCursor AnalyzerConn) (s1\<lparr>connection := Some attempt\<rparr>) of
             (Inl e, s2) \<Rightarrow> (Inl e, s2)
           | (Inr _, s2) \<Rightarrow> (Inr (), s2\<lparr>cursor := Some attempt\<rparr>)))"

text \<open>
  The loop \<^verbatim>\<open>for attempt in range(1, max_retries + 1)\<close>, over the list of attempt
  numbers still to try. A success leaves the loop (\<^verbatim>\<open>break\<close>); a database error
  sleeps and goes on when \<^verbatim>\<open>attempt < max_retries\<close> and is raised again otherwise;
  any other exception is not caught.
\<close>

fun connect_loop :: "world \<Rightarrow> nat \<Rightarrow> nat list \<Rightarrow> analyzer \<Rightarrow> (exn + unit) \<times> analyzer" where
  "connect_loop w m [] s = (Inr (), s)"
| "connect_loop w m (attempt # rest) s =
     (case try_connect w attempt s of
        (Inr _, s1) \<Rightarrow> (Inr (), s1)
      | (Inl e, s1) \<Rightarrow>
          if is_DatabaseError e then
            (if attempt < m then connect_loop w m rest (sleep retry_delay s1)
             else (Inl e, s1))
          else (Inl e, s1))"

text \<open>
  The probe of the PGX server that follows: one GET of \<^verbatim>\<open>/version\<close>. Whatever
  happens (the request raises, the status is not 200, the body is not JSON and
  \<^verbatim>\<open>response.json()\<close> raises inside the log call), the exception is caught and the
  three PGX fields are set to \<^verbatim>\<open>None\<close>.
\<close>

definition pgx_probe :: "world \<Rightarrow> analyzer \<Rightarrow> (exn + unit) \<times> analyzer" where
  "pgx_probe w s =
     (case call w (HttpRequest GET (pgx_base_url s @ ''/version'') None) s of
        (_, s1) \<Rightarrow> (Inr (), s1\<lparr>pgx_session := False, graph := False\<rparr>))"

definition connect :: "world \<Rightarrow> analyzer \<Rightarrow> (exn + unit) \<times> analyzer" where
  "connect w s =
     (case connect_loop w max_retries [1 ..< max_retries + 1] (print (Log LogConnecting) s) of
        (Inl e, s1) \<Rightarrow> (Inl e, s1)
      | (Inr _, s1) \<Rightarrow> pgx_probe w s1)"

text \<open>
  What the retry loop is expected to leave in the trace, written from the outcomes of the
  attempts: each attempt either fails in \<^verbatim>\<open>oracledb.connect\<close>, or connects and
  fails to open the cursor, or succeeds; between two consecutive attempts there is one
  sleep of \<open>retry_delay\<close> seconds, and none after the last attempt.
\<close>

datatype attempt_outcome = ConnectRaised exn | CursorRaised exn | Connected

fun attempt_trace :: "nat \<Rightarrow> attempt_outcome \<Rightarrow> observed list" where
  "attempt_trace n (ConnectRaised x) = [(DbConnect n, Some x)]"
| "attempt_trace n (CursorRaised x) =
     [(DbConnect n, None), (OpenCursor AnalyzerConn, Some x)]"
| "attempt_trace n Connected = [(DbConnect n, None), (OpenCursor AnalyzerConn, None)]"

fun retry_trace :: "nat \<Rightarrow> attempt_outcome list \<Rightarrow> observed list" where
  "retry_trace n [] = []"
| "retry_trace n [a] = attempt_trace n a"
| "retry_trace n (a # b # rest) =
     attempt_trace n a @ [(Sleep 5, None)] @ retry_trace (Suc n) (b # rest)"

fun database_failure :: "attempt_outcome \<Rightarrow> bool" where
  "database_failure (ConnectRaised x) = is_DatabaseError x"
| "database_failure (CursorRaised x) = is_DatabaseError x"
| "database_failure Connected = False"

text \<open>
  How the outcome of the last of \<open>k\<close> attempts decides the result: a success returns,
  an exception is raised to the caller, and a database error can only be the one of
  attempt number 30.
\<close>

fun final_outcome :: "nat \<Rightarrow> attempt_outcome \<Rightarrow> (exn + unit) \<Rightarrow> bool" where
  "final_outcome k Connected r = (r = Inr ())"
| "final_outcome k (ConnectRaised x) r = (r = Inl x \<and> (is_DatabaseError x \<longrightarrow> k = 30))"
| "final_outcome k (CursorRaised x) r = (r = Inl x \<and> (is_DatabaseError x \<longrightarrow> k = 30))"

section \<open>copy\_to\_freepdb1.py\<close>

subsection \<open>Strings\<close>

text \<open>\<^verbatim>\<open>str(n)\<close> for a natural number, and \<^verbatim>\<open>sep.join(xs)\<close>.\<close>

definition digit_char :: "nat \<Rightarrow> char" where
  "digit_char d = ''0123456789'' ! d"

fun str_nat :: "nat \<Rightarrow> string" where
  "str_nat n = (if n < 10 then [digit_char n] else str_nat (n div 10) @ [digit_char (n mod 10)])"

declare str_nat.simps [simp del]

definition str_int :: "int \<Rightarrow> string" where
  "str_int i = (if i < 0 then ''-'' @ str_nat (nat (- i)) else str_nat (nat i))"

fun join :: "string \<Rightarrow> string list \<Rightarrow> string" where
  "join sep [] = []"
| "join sep [x] = x"
| "join sep (x # y # ys) = x @ sep @ join sep (y # ys)"

definition newline :: string where
  "newline = [CHR 0x0A]"

definition quote :: string where
  "quote = [CHR 0x27]"

subsection \<open>The statements of copy\_table\<close>

definition select_all_sql :: "string \<Rightarrow> string" where
  "select_all_sql table_name = ''SELECT * FROM '' @ table_name"

definition drop_sql :: "string \<Rightarrow> string" where
  "drop_sql table_name = ''DROP TABLE '' @ table_name"

definition catalog_sql :: "string \<Rightarrow> string" where
  "catalog_sql table_name =
     newline @
     ''        SELECT column_name, data_type, data_length, data_precision, nullable'' @ newline @
     ''        FROM user_tab_columns'' @ newline @
     ''        WHERE table_name = UPPER('' @ quote @ table_name @ quote @ '')'' @ newline @
     ''        ORDER BY column_id'' @ newline @
     ''    ''"

text \<open>
  One iteration of \<^verbatim>\<open>for col in columns\<close>: the column definition built from a catalog
  row. \<^verbatim>\<open>if data_precision:\<close> is false for NULL and for 0.
\<close>

definition col_def :: "column_info \<Rightarrow> string" where
  "col_def col =
     (case col of (col_name, data_type, data_length, data_precision, nullable) \<Rightarrow>
        (let d =
           (if data_type = ''VARCHAR2'' then
              col_name @ '' VARCHAR2('' @ str_nat data_length @ '')''
            else if data_type = ''NUMBER'' then
              (case data_precision of
                 Some p \<Rightarrow>
                   if p \<noteq> 0 then col_name @ '' NUMBER('' @ str_nat p @ '')''
                   else col_name @ '' NUMBER''
               | None \<Rightarrow> col_name @ '' NUMBER'')
            else col_name @ '' '' @ data_type)
         in if nullable = ''N'' then d @ '' NOT NULL'' else d))"

definition create_sql :: "string \<Rightarrow> column_info list \<Rightarrow> string" where
  "create_sql table_name cols =
     ''CREATE TABLE '' @ table_name @ '' ('' @ join '', '' (map col_def cols) @ '')''"

definition placeholders :: "nat \<Rightarrow> string" where
  "placeholders n = join '', '' (map (\<lambda>i. '':'' @ str_nat (i + 1)) [0 ..< n])"

definition insert_sql :: "string \<Rightarrow> string list \<Rightarrow> string" where
  "insert_sql table_name cs =
     ''INSERT INTO '' @ table_name @ '' ('' @ join '', '' cs @ '') VALUES ('' @
     placeholders (length cs) @ '')''"

text \<open>\<^verbatim>\<open>[tuple(row) for row in df.values]\<close>: one tuple per row, in column order.\<close>

definition frame_values :: "frame \<Rightarrow> cell list list" where
  "frame_values d = map (\<lambda>r. map r (columns d)) (rows d)"

subsection \<open>copy\_table\<close>

definition read_sql :: "world \<Rightarrow> conn \<Rightarrow> string \<Rightarrow> io \<Rightarrow> (exn + frame) \<times> io" where
  "read_sql w c q s =
     and_then (call w (ReadSql c q) s) (\<lambda>_ s1. (Inr (frame_reply w (length (trace s))), s1))"

definition fetchall :: "world \<Rightarrow> conn \<Rightarrow> io \<Rightarrow> (exn + column_info list) \<times> io" where
  "fetchall w c s =
     and_then (call w (Fetchall c) s) (\<lambda>_ s1. (Inr (catalog_reply w (length (trace s))), s1))"

text \<open>
  The \<^verbatim>\<open>try\<close> block around the drop: open a cursor on the destination and drop the
  table. The bare \<^verbatim>\<open>except: pass\<close> swallows whatever either call raises.
\<close>

definition drop_if_exists :: "world \<Rightarrow> string \<Rightarrow> io \<Rightarrow> io" where
  "drop_if_exists w table_name s =
     (case call w (OpenCursor DestConn) s of
        (Inl e, s1) \<Rightarrow> s1
      | (Inr _, s1) \<Rightarrow>
          (case call w (Execute DestConn (drop_sql table_name) []) s1 of
             (Inl e, s2) \<Rightarrow> s2
           | (Inr _, s2) \<Rightarrow> print MDropped s2))"

definition insert_data :: "world \<Rightarrow> string \<Rightarrow> frame \<Rightarrow> io \<Rightarrow> (exn + unit) \<times> io" where
  "insert_data w table_name d s =
     (if length (rows d) > 0 then
        and_then (call w (ExecuteMany DestConn (insert_sql table_name (columns d)) (frame_values d)) s)
          (\<lambda>_ s1. and_then (call w (Commit DestConn) s1)
          (\<lambda>_ s2. (Inr (), print (MInserted (length (rows d))) s2)))
      else (Inr (), s))"

text \<open>What \<^verbatim>\<open>copy_table\<close> does after the drop step: it reads the column definitions
  of the source, creates the table on the destination and inserts the rows.\<close>

definition create_and_fill :: "world \<Rightarrow> string \<Rightarrow> frame \<Rightarrow> io \<Rightarrow> (exn + unit) \<times> io" where
  "create_and_fill w table_name d s =
     and_then (call w (OpenCursor SourceConn) s)
       (\<lambda>_ s2.
     and_then (call w (Execute SourceConn (catalog_sql table_name) []) s2)
       (\<lambda>_ s3.
     and_then (fetchall w SourceConn s3)
       (\<lambda>cols s4.
     and_then (call w (OpenCursor DestConn) s4)
       (\<lambda>_ s5.
     and_then (call w (Execute DestConn (create_sql table_name cols) []) s5)
       (\<lambda>_ s6.
     and_then (insert_data w table_name d (print MCreated s6))
       (\<lambda>_ s7. (Inr (), print (MCopied table_name) s7)))))))"

definition copy_table :: "world \<Rightarrow> string \<Rightarrow> io \<Rightarrow> (exn + unit) \<times> io" where
  "copy_table w table_name s =
     and_then (read_sql w SourceConn (select_all_sql table_name) (print (MCopying table_name) s))
       (\<lambda>d s1. create_and_fill w table_name d
                 (drop_if_exists w table_name (print (MRead (length (rows d))) s1)))"

subsection \<open>The script\<close>

definition tables :: "string list" where
  "tables =
     [''entities'', ''countries'', ''months'', ''inspections'', ''target_proxies'',
      ''country_months'', ''shipped_in_edges'', ''is_from_edges'', ''has_weather_edges'',
      ''has_inspection_result_edges'']"

text \<open>The loop \<^verbatim>\<open>for table in tables: try: copy_table(...) except Exception as e: print(...)\<close>.\<close>

fun copy_tables :: "world \<Rightarrow> string list \<Rightarrow> io \<Rightarrow> io" where
  "copy_tables w [] s = s"
| "copy_tables w (table # rest) s =
     (case copy_table w table s of
        (Inr _, s1) \<Rightarrow> copy_tables w rest s1
      | (Inl e, s1) \<Rightarrow> copy_tables w rest (print (MError table e) s1))"

definition count_sql :: "string \<Rightarrow> string" where
  "count_sql table = ''SELECT COUNT(*) FROM '' @ table"

text \<open>\<^verbatim>\<open>cursor.fetchone()[0]\<close>: subscripting \<^verbatim>\<open>None\<close> raises \<^verbatim>\<open>TypeError\<close>.\<close>

definition fetch_count :: "world \<Rightarrow> conn \<Rightarrow> 'a io_scheme \<Rightarrow> (exn + int) \<times> 'a io_scheme" where
  "fetch_count w c s =
     and_then (call w (Fetchone c) s)
       (\<lambda>_ s1. case count_reply w (length (trace s)) of
                 None \<Rightarrow> (Inl TypeError, s1)
               | Some n \<Rightarrow> (Inr n, s1))"

fun verify_tables :: "world \<Rightarrow> string list \<Rightarrow> io \<Rightarrow> (exn + unit) \<times> io" where
  "verify_tables w [] s = (Inr (), s)"
| "verify_tables w (table # rest) s =
     and_then (call w (Execute DestConn (count_sql table) []) s)
       (\<lambda>_ s1. and_then (fetch_count w DestConn s1)
       (\<lambda>n s2. verify_tables w rest (print (MCount table n) s2)))"

text \<open>
  The body under \<^verbatim>\<open>if __name__ == "__main__"\<close>: connect to both databases, copy,
  verify, close. The banner lines it prints are not modelled.
\<close>

definition copy_main :: "world \<Rightarrow> io \<Rightarrow> (exn + unit) \<times> io" where
  "copy_main w s =
     and_then (call w (ConnectTo SourceConn) s)
       (\<lambda>_ s1. and_then (call w (ConnectTo DestConn) s1)
       (\<lambda>_ s2. and_then (call w (OpenCursor DestConn) (copy_tables w tables s2))
       (\<lambda>_ s3. and_then (verify_tables w tables s3)
       (\<lambda>_ s4. and_then (call w (CloseConn SourceConn) s4)
       (\<lambda>_ s5. call w (CloseConn DestConn) s5)))))"

subsection \<open>Reading the trace\<close>


definition execute_calls :: "observed list \<Rightarrow> (conn \<times> string \<times> cell list) list" where
  "execute_calls tr =
     concat (map (\<lambda>ob. case fst ob of Execute c q p \<Rightarrow> [(c, q, p)] | _ \<Rightarrow> []) tr)"



text \<open>
  The calls of the drop step when it starts at index \<open>n\<close> of the trace: the cursor, and
  if that call returned, the DROP statement, each with whatever outcome the world gives.
\<close>

definition drop_events :: "world \<Rightarrow> string \<Rightarrow> nat \<Rightarrow> observed list" where
  "drop_events w table_name n =
     (case raises w n of
        Some e \<Rightarrow> [(OpenCursor DestConn, Some e)]
      | None \<Rightarrow>
          [(OpenCursor DestConn, None),
           (Execute DestConn (drop_sql table_name) [], raises w (Suc n))])"


text \<open>What a call added to the trace and to the output.\<close>

definition new_events :: "'a io_scheme \<Rightarrow> 'a io_scheme \<Rightarrow> observed list" where
  "new_events s s' = drop (length (trace s)) (trace s')"

definition new_out :: "'a io_scheme \<Rightarrow> 'a io_scheme \<Rightarrow> msg list" where
  "new_out s s' = drop (length (out s)) (out s')"


subsection \<open>The destination schema, as the specification words it\<close>




subsection \<open>One table of the copy loop, as the trace and the output show it\<close>



section \<open>PGXRestClient\<close>























subsection \<open>What one method call does\<close>


section \<open>PestDataAnalyzer: loading the CSV\<close>

subsection \<open>Python values\<close>

text \<open>\<^verbatim>\<open>int(x)\<close> of a float truncates towards zero.\<close>

definition py_trunc :: "real \<Rightarrow> int" where
  "py_trunc x = (if 0 \<le> x then \<lfloor>x\<rfloor> else \<lceil>x\<rceil>)"

text \<open>\<^verbatim>\<open>str(x)\<close>. How a finite float prints is left to the world.\<close>

fun py_str :: "world \<Rightarrow> cell \<Rightarrow> string" where
  "py_str w (Str s) = s"
| "py_str w (Num (NInt i)) = str_int i"
| "py_str w (Num (NFlt x)) = float_repr w x"
| "py_str w (Num (NInf positive)) = (if positive then ''inf'' else ''-inf'')"
| "py_str w (Num NNaN) = ''nan''"

text \<open>
  \<^verbatim>\<open>int(x)\<close>: a string must be an integer literal, an infinity raises
  \<^verbatim>\<open>OverflowError\<close> and NaN raises \<^verbatim>\<open>ValueError\<close>.
\<close>

fun py_int :: "world \<Rightarrow> cell \<Rightarrow> exn + int" where
  "py_int w (Str s) = (case parse_number w s of Some (NInt i) \<Rightarrow> Inr i | _ \<Rightarrow> Inl ValueError)"
| "py_int w (Num (NInt i)) = Inr i"
| "py_int w (Num (NFlt x)) = Inr (py_trunc x)"
| "py_int w (Num (NInf positive)) = Inl OverflowError"
| "py_int w (Num NNaN) = Inl ValueError"

text \<open>\<^verbatim>\<open>x == k\<close> for an integer \<open>k\<close>, and \<^verbatim>\<open>x == s\<close> for a string \<open>s\<close>.\<close>

fun equals_int :: "cell \<Rightarrow> int \<Rightarrow> bool" where
  "equals_int (Num (NInt i)) k = (i = k)"
| "equals_int (Num (NFlt x)) k = (x = of_int k)"
| "equals_int _ k = False"

fun equals_str :: "cell \<Rightarrow> string \<Rightarrow> bool" where
  "equals_str (Str s) t = (s = t)"
| "equals_str _ t = False"

text \<open>When \<^verbatim>\<open>unique\<close> and \<^verbatim>\<open>drop_duplicates\<close> take two values for the same one:
  equal numbers, equal strings, and NaN with NaN.\<close>

fun same_num :: "num \<Rightarrow> num \<Rightarrow> bool" where
  "same_num (NInt i) (NInt j) = (i = j)"
| "same_num (NInt i) (NFlt y) = (of_int i = y)"
| "same_num (NFlt x) (NInt j) = (x = of_int j)"
| "same_num (NFlt x) (NFlt y) = (x = y)"
| "same_num (NInf a) (NInf b) = (a = b)"
| "same_num NNaN NNaN = True"
| "same_num _ _ = False"

fun same_value :: "cell \<Rightarrow> cell \<Rightarrow> bool" where
  "same_value (Str s) (Str t) = (s = t)"
| "same_value (Num a) (Num b) = same_num a b"
| "same_value _ _ = False"

subsection \<open>Frames\<close>

text \<open>\<^verbatim>\<open>df[c]\<close> and \<^verbatim>\<open>row[c]\<close>: a label that is not a column raises \<^verbatim>\<open>KeyError\<close>.\<close>

definition column :: "frame \<Rightarrow> string \<Rightarrow> exn + cell list" where
  "column d c = (if c \<in> set (columns d) then Inr (map (\<lambda>r. r c) (rows d)) else Inl KeyError)"

definition item :: "string list \<Rightarrow> (string \<Rightarrow> cell) \<Rightarrow> string \<Rightarrow> exn + cell" where
  "item cols r c = (if c \<in> set cols then Inr (r c) else Inl KeyError)"

text \<open>\<^verbatim>\<open>Series.unique()\<close>: the values in the order of their first appearance.\<close>

fun uniq :: "cell list \<Rightarrow> cell list \<Rightarrow> cell list" where
  "uniq seen [] = []"
| "uniq seen (x # xs) =
     (if list_ex (\<lambda>y. same_value y x) seen then uniq seen xs else x # uniq (x # seen) xs)"

definition unique :: "cell list \<Rightarrow> cell list" where
  "unique xs = uniq [] xs"

text \<open>\<^verbatim>\<open>df[cs].drop_duplicates()\<close>: the first row of each combination of values.\<close>

fun distinct_rows ::
  "string list \<Rightarrow> cell list list \<Rightarrow> (string \<Rightarrow> cell) list \<Rightarrow> (string \<Rightarrow> cell) list" where
  "distinct_rows cs seen [] = []"
| "distinct_rows cs seen (r # rs) =
     (if list_ex (\<lambda>k. list_all2 same_value k (map r cs)) seen then distinct_rows cs seen rs
      else r # distinct_rows cs (map r cs # seen) rs)"

definition select_distinct :: "frame \<Rightarrow> string list \<Rightarrow> exn + (string \<Rightarrow> cell) list" where
  "select_distinct d cs =
     (if list_all (\<lambda>c. c \<in> set (columns d)) cs then Inr (distinct_rows cs [] (rows d))
      else Inl KeyError)"

text \<open>The first exception of a list of results, or all the values.\<close>

fun sequence :: "(exn + 'a) list \<Rightarrow> exn + 'a list" where
  "sequence [] = Inr []"
| "sequence (Inl e # xs) = Inl e"
| "sequence (Inr x # xs) = (case sequence xs of Inl e \<Rightarrow> Inl e | Inr ys \<Rightarrow> Inr (x # ys))"

subsection \<open>load\_data\<close>

definition numeric_columns :: "string list" where
  "numeric_columns =
     [''TARGET_PROXY'', ''ENTY_EXAMS_30D'', ''ENTY_PESTS_30D'', ''ENTY_EXAMS_90D'',
      ''ENTY_PESTS_90D'', ''ENTY_EXAMS_1YR'', ''ENTY_PESTS_1YR'']"

text \<open>
  \<^verbatim>\<open>pd.to_numeric(..., errors='coerce')\<close> on one value: a number stays, a string is
  parsed, and what does not parse becomes NaN. Which strings parse, and to what, is
  left to the world. Then \<^verbatim>\<open>fillna(0)\<close>, then \<^verbatim>\<open>astype(int)\<close>, which truncates a
  float and raises on a value that is not finite.
\<close>

definition to_numeric :: "world \<Rightarrow> cell \<Rightarrow> num" where
  "to_numeric w c =
     (case c of
        Num n \<Rightarrow> n
      | Str s \<Rightarrow> (case parse_number w s of Some n \<Rightarrow> n | None \<Rightarrow> NNaN))"

definition fillna0 :: "num \<Rightarrow> num" where
  "fillna0 n = (case n of NNaN \<Rightarrow> NInt 0 | _ \<Rightarrow> n)"

fun astype_int :: "num \<Rightarrow> exn + int" where
  "astype_int (NInt i) = Inr i"
| "astype_int (NFlt x) = Inr (py_trunc x)"
| "astype_int (NInf positive) = Inl IntCastingNaNError"
| "astype_int NNaN = Inl IntCastingNaNError"

definition convert_cell :: "world \<Rightarrow> cell \<Rightarrow> exn + int" where
  "convert_cell w c = astype_int (fillna0 (to_numeric w c))"

text \<open>The assignment \<^verbatim>\<open>self.df[col] = ...\<close>: the column is replaced when the whole
  conversion succeeded, and left as it was when it raised.\<close>

definition convert_column :: "world \<Rightarrow> string \<Rightarrow> frame \<Rightarrow> (exn + unit) \<times> frame" where
  "convert_column w c d =
     (case sequence (map (\<lambda>r. convert_cell w (r c)) (rows d)) of
        Inl e \<Rightarrow> (Inl e, d)
      | Inr vs \<Rightarrow> (Inr (), d\<lparr>rows := map (\<lambda>(r, v). r(c := Num (NInt v))) (zip (rows d) vs)\<rparr>))"

fun convert_columns :: "world \<Rightarrow> string list \<Rightarrow> frame \<Rightarrow> (exn + unit) \<times> frame" where
  "convert_columns w [] d = (Inr (), d)"
| "convert_columns w (c # cs) d =
     (if c \<in> set (columns d) then
        and_then (convert_column w c d) (\<lambda>_ d1. convert_columns w cs d1)
      else convert_columns w cs d)"

definition read_csv :: "world \<Rightarrow> string \<Rightarrow> 'a io_scheme \<Rightarrow> (exn + frame) \<times> 'a io_scheme" where
  "read_csv w path s =
     and_then (call w (ReadCsv path) s) (\<lambda>_ s1. (Inr (frame_reply w (length (trace s))), s1))"

text \<open>
  The test \<^verbatim>\<open>self.df.iloc[0]['TARGET_PROXY'] == 'TP' or str(self.df.iloc[0]['ENTY_ID']) == 'ENTY_ID'\<close>.
  \<^verbatim>\<open>iloc[0]\<close> raises \<^verbatim>\<open>IndexError\<close> on a frame without rows; the second operand is
  evaluated only when the first is false.
\<close>

definition first_row_is_header :: "world \<Rightarrow> frame \<Rightarrow> exn + bool" where
  "first_row_is_header w d =
     (case rows d of
        [] \<Rightarrow> Inl IndexError
      | r # _ \<Rightarrow>
          (case item (columns d) r ''TARGET_PROXY'' of
             Inl e \<Rightarrow> Inl e
           | Inr tp \<Rightarrow>
               if equals_str tp ''TP'' then Inr True
               else (case item (columns d) r ''ENTY_ID'' of
                       Inl e \<Rightarrow> Inl e
                     | Inr v \<Rightarrow> Inr (py_str w v = ''ENTY_ID''))))"

text \<open>\<^verbatim>\<open>self.df.iloc[1:].reset_index(drop=True)\<close>: the rows are a list, so their
  positions are the new index.\<close>

definition drop_first_row :: "frame \<Rightarrow> frame" where
  "drop_first_row d = d\<lparr>rows := tl (rows d)\<rparr>"

definition load_data :: "world \<Rightarrow> analyzer \<Rightarrow> (exn + unit) \<times> analyzer" where
  "load_data w s =
     and_then (read_csv w (csv_path s) (print (Log (LogLoading (csv_path s))) s))
       (\<lambda>d s1.
          (case first_row_is_header w d of
             Inl e \<Rightarrow> (Inl e, s1\<lparr>df := Some d\<rparr>)
           | Inr header \<Rightarrow>
               (case convert_columns w numeric_columns (if header then drop_first_row d else d) of
                  (Inl e, d2) \<Rightarrow> (Inl e, s1\<lparr>df := Some d2\<rparr>)
                | (Inr _, d2) \<Rightarrow>
                    (case column d2 ''ENTY_ID'' of
                       Inl e \<Rightarrow> (Inl e, s1\<lparr>df := Some d2\<rparr>)
                     | Inr _ \<Rightarrow> (Inr (), s1\<lparr>df := Some d2\<rparr>)))))"

section \<open>PestDataAnalyzer: writing the graph tables\<close>

subsection \<open>Cursor and connection\<close>

text \<open>A method call on \<^verbatim>\<open>self.cursor\<close> or \<^verbatim>\<open>self.connection\<close> while it is still
  \<^verbatim>\<open>None\<close> raises \<^verbatim>\<open>AttributeError\<close> before anything reaches the database.\<close>

definition cursor_execute ::
  "world \<Rightarrow> string \<Rightarrow> cell list \<Rightarrow> analyzer \<Rightarrow> (exn + unit) \<times> analyzer" where
  "cursor_execute w q params s =
     (if cursor s = None then (Inl AttributeError, s)
      else call w (Execute AnalyzerConn q params) s)"

definition cursor_fetch_count :: "world \<Rightarrow> analyzer \<Rightarrow> (exn + int) \<times> analyzer" where
  "cursor_fetch_count w s =
     (if cursor s = None then (Inl AttributeError, s) else fetch_count w AnalyzerConn s)"

definition connection_commit :: "world \<Rightarrow> analyzer \<Rightarrow> (exn + unit) \<times> analyzer" where
  "connection_commit w s =
     (if connection s = None then (Inl AttributeError, s) else call w (Commit AnalyzerConn) s)"

text \<open>\<^verbatim>\<open>self.df[...]\<close> and \<^verbatim>\<open>len(self.df)\<close> raise \<^verbatim>\<open>TypeError\<close> while no frame is
  loaded.\<close>

definition the_frame :: "analyzer \<Rightarrow> (exn + frame) \<times> analyzer" where
  "the_frame s = (case df s of None \<Rightarrow> (Inl TypeError, s) | Some d \<Rightarrow> (Inr d, s))"

definition lift :: "exn + 'a \<Rightarrow> 's \<Rightarrow> (exn + 'a) \<times> 's" where
  "lift x s = (x, s)"

subsection \<open>clear\_database\<close>

definition clear_order :: "string list" where
  "clear_order =
     [''has_inspection_result_edges'', ''has_weather_edges'', ''is_from_edges'',
      ''shipped_in_edges'', ''inspections'', ''country_months'', ''target_proxies'',
      ''months'', ''countries'', ''entities'']"

definition delete_sql :: "string \<Rightarrow> string" where
  "delete_sql table = ''DELETE FROM '' @ table"

text \<open>The loop with its \<^verbatim>\<open>try\<close> and \<^verbatim>\<open>except Exception\<close>: a DELETE that raises is
  logged at debug level and the loop goes on.\<close>

fun clear_tables :: "world \<Rightarrow> string list \<Rightarrow> analyzer \<Rightarrow> analyzer" where
  "clear_tables w [] s = s"
| "clear_tables w (table # rest) s =
     (case cursor_execute w (delete_sql table) [] s of (_, s1) \<Rightarrow> clear_tables w rest s1)"

definition clear_database :: "world \<Rightarrow> analyzer \<Rightarrow> (exn + unit) \<times> analyzer" where
  "clear_database w s =
     connection_commit w (clear_tables w clear_order (print (Log LogClearing) s))"

subsection \<open>create\_nodes\<close>

definition insert_entities_sql :: string where
  "insert_entities_sql = ''INSERT INTO entities (entity_id, entity_type) VALUES (:1, :2)''"

definition insert_countries_sql :: string where
  "insert_countries_sql = ''INSERT INTO countries (country_code, country_name) VALUES (:1, :2)''"

definition insert_months_sql :: string where
  "insert_months_sql = ''INSERT INTO months (month_name, month_number) VALUES (:1, :2)''"

definition insert_target_proxies_sql :: string where
  "insert_target_proxies_sql =
     ''INSERT INTO target_proxies (target_value, target_label) VALUES (:1, :2)''"

definition insert_country_months_sql :: string where
  "insert_country_months_sql =
     ''INSERT INTO country_months (cm_id, country_code, month_name) VALUES (:1, :2, :3)''"

text \<open>
  A loop that executes one statement per element. The parameters of an element are
  computed when its turn comes, so an element whose parameters raise stops the loop
  after the statements of the elements before it.
\<close>

fun insert_each ::
  "world \<Rightarrow> string \<Rightarrow> (exn + cell list) list \<Rightarrow> analyzer \<Rightarrow> (exn + unit) \<times> analyzer" where
  "insert_each w q [] s = (Inr (), s)"
| "insert_each w q (Inl e # rest) s = (Inl e, s)"
| "insert_each w q (Inr params # rest) s =
     and_then (cursor_execute w q params s) (\<lambda>_ s1. insert_each w q rest s1)"

definition entity_params :: "world \<Rightarrow> cell \<Rightarrow> exn + cell list" where
  "entity_params w entity_id = Inr [Str (py_str w entity_id), Str ''inspection_entity'']"

definition country_params :: "world \<Rightarrow> cell \<Rightarrow> exn + cell list" where
  "country_params w country_code = Inr [Str (py_str w country_code), Str (py_str w country_code)]"

definition month_params :: "world \<Rightarrow> nat \<times> cell \<Rightarrow> exn + cell list" where
  "month_params w im =
     (case im of (idx, month) \<Rightarrow> Inr [Str (py_str w month), Num (NInt (int idx + 1))])"

definition target_params :: "world \<Rightarrow> cell \<Rightarrow> exn + cell list" where
  "target_params w target =
     (case py_int w target of
        Inl e \<Rightarrow> Inl e
      | Inr i \<Rightarrow> Inr [Num (NInt i), Str (if i = 0 then ''no_pest'' else ''pest'')])"

text \<open>\<^verbatim>\<open>f"{row['CTRY_CODE']}_{row['MONTH']}"\<close>\<close>

definition cm_id :: "world \<Rightarrow> string list \<Rightarrow> (string \<Rightarrow> cell) \<Rightarrow> exn + string" where
  "cm_id w cols row =
     (case item cols row ''CTRY_CODE'' of
        Inl e \<Rightarrow> Inl e
      | Inr c \<Rightarrow>
          (case item cols row ''MONTH'' of
             Inl e \<Rightarrow> Inl e
           | Inr m \<Rightarrow> Inr (py_str w c @ ''_'' @ py_str w m)))"

text \<open>The rows whose country-month identifier was not seen before, with the
  parameters of their INSERT.\<close>

fun country_month_params ::
  "world \<Rightarrow> string list \<Rightarrow> string list \<Rightarrow> (string \<Rightarrow> cell) list \<Rightarrow> (exn + cell list) list" where
  "country_month_params w cols seen [] = []"
| "country_month_params w cols seen (row # rest) =
     (case cm_id w cols row of
        Inl e \<Rightarrow> [Inl e]
      | Inr cm \<Rightarrow>
          if cm \<in> set seen then country_month_params w cols seen rest
          else Inr [Str cm, Str (py_str w (row ''CTRY_CODE'')), Str (py_str w (row ''MONTH''))] #
               country_month_params w cols (cm # seen) rest)"

definition create_nodes :: "world \<Rightarrow> analyzer \<Rightarrow> (exn + unit) \<times> analyzer" where
  "create_nodes w s =
     and_then (the_frame (print (Log LogCreatingNodes) s))
       (\<lambda>d s0.
     and_then (lift (column d ''ENTY_ID'') s0)
       (\<lambda>entities s1.
     and_then (insert_each w insert_entities_sql (map (entity_params w) (unique entities)) s1)
       (\<lambda>_ s2.
     and_then (lift (column d ''CTRY_CODE'') s2)
       (\<lambda>countries s3.
     and_then (insert_each w insert_countries_sql (map (country_params w) (unique countries)) s3)
       (\<lambda>_ s4.
     and_then (lift (column d ''MONTH'') s4)
       (\<lambda>months s5.
     and_then (insert_each w insert_months_sql
                 (map (month_params w) (zip [0 ..< length (unique months)] (unique months))) s5)
       (\<lambda>_ s6.
     and_then (lift (column d ''TARGET_PROXY'') s6)
       (\<lambda>targets s7.
     and_then (insert_each w insert_target_proxies_sql (map (target_params w) (unique targets)) s7)
       (\<lambda>_ s8.
     and_then (insert_each w insert_country_months_sql
                 (country_month_params w (columns d) [] (rows d)) s8)
       (\<lambda>_ s9. connection_commit w s9))))))))))"

subsection \<open>create\_inspections\_and\_relationships\<close>

definition insert_inspections_sql :: string where
  "insert_inspections_sql =
     newline @
     ''                INSERT INTO inspections ('' @ newline @
     ''                    entity_id, country_code, month_name, target_proxy,'' @ newline @
     ''                    exams_30d, pests_30d, exams_90d, pests_90d, exams_1yr, pests_1yr, has_pest'' @ newline @
     ''                ) VALUES (:1, :2, :3, :4, :5, :6, :7, :8, :9, :10, :11)'' @ newline @
     ''            ''"

definition insert_shipped_in_sql :: string where
  "insert_shipped_in_sql = ''INSERT INTO shipped_in_edges (entity_id, month_name) VALUES (:1, :2)''"

definition insert_is_from_sql :: string where
  "insert_is_from_sql = ''INSERT INTO is_from_edges (entity_id, country_code) VALUES (:1, :2)''"

definition insert_has_weather_sql :: string where
  "insert_has_weather_sql = ''INSERT INTO has_weather_edges (entity_id, cm_id) VALUES (:1, :2)''"

definition insert_has_inspection_result_sql :: string where
  "insert_has_inspection_result_sql =
     ''INSERT INTO has_inspection_result_edges (entity_id, target_value) VALUES (:1, :2)''"

text \<open>\<^verbatim>\<open>str(row[c])\<close>, \<^verbatim>\<open>int(row[c])\<close> and \<^verbatim>\<open>1 if row[c] == 1 else 0\<close> as
  parameters of a statement.\<close>

definition str_item :: "world \<Rightarrow> string list \<Rightarrow> (string \<Rightarrow> cell) \<Rightarrow> string \<Rightarrow> exn + cell" where
  "str_item w cols row c =
     (case item cols row c of Inl e \<Rightarrow> Inl e | Inr v \<Rightarrow> Inr (Str (py_str w v)))"

definition int_item :: "world \<Rightarrow> string list \<Rightarrow> (string \<Rightarrow> cell) \<Rightarrow> string \<Rightarrow> exn + cell" where
  "int_item w cols row c =
     (case item cols row c of
        Inl e \<Rightarrow> Inl e
      | Inr v \<Rightarrow> (case py_int w v of Inl e \<Rightarrow> Inl e | Inr i \<Rightarrow> Inr (Num (NInt i))))"

definition is_one_item :: "string list \<Rightarrow> (string \<Rightarrow> cell) \<Rightarrow> string \<Rightarrow> exn + cell" where
  "is_one_item cols row c =
     (case item cols row c of
        Inl e \<Rightarrow> Inl e
      | Inr v \<Rightarrow> Inr (Num (NInt (if equals_int v 1 then 1 else 0))))"

text \<open>One iteration of the first loop: the country-month identifier is computed
  first (and not used), then the eleven parameters from left to right.\<close>

definition inspection_params :: "world \<Rightarrow> string list \<Rightarrow> (string \<Rightarrow> cell) \<Rightarrow> exn + cell list" where
  "inspection_params w cols row =
     (case cm_id w cols row of
        Inl e \<Rightarrow> Inl e
      | Inr _ \<Rightarrow>
          sequence
            [str_item w cols row ''ENTY_ID'', str_item w cols row ''CTRY_CODE'',
             str_item w cols row ''MONTH'', int_item w cols row ''TARGET_PROXY'',
             int_item w cols row ''ENTY_EXAMS_30D'', int_item w cols row ''ENTY_PESTS_30D'',
             int_item w cols row ''ENTY_EXAMS_90D'', int_item w cols row ''ENTY_PESTS_90D'',
             int_item w cols row ''ENTY_EXAMS_1YR'', int_item w cols row ''ENTY_PESTS_1YR'',
             is_one_item cols row ''TARGET_PROXY''])"

definition shipped_in_params :: "world \<Rightarrow> (string \<Rightarrow> cell) \<Rightarrow> exn + cell list" where
  "shipped_in_params w row = Inr [Str (py_str w (row ''ENTY_ID'')), Str (py_str w (row ''MONTH''))]"

definition is_from_params :: "world \<Rightarrow> (string \<Rightarrow> cell) \<Rightarrow> exn + cell list" where
  "is_from_params w row = Inr [Str (py_str w (row ''ENTY_ID'')), Str (py_str w (row ''CTRY_CODE''))]"

definition has_weather_params :: "world \<Rightarrow> (string \<Rightarrow> cell) \<Rightarrow> exn + cell list" where
  "has_weather_params w row =
     Inr [Str (py_str w (row ''ENTY_ID'')),
          Str (py_str w (row ''CTRY_CODE'') @ ''_'' @ py_str w (row ''MONTH''))]"

definition has_inspection_result_params :: "world \<Rightarrow> (string \<Rightarrow> cell) \<Rightarrow> exn + cell list" where
  "has_inspection_result_params w row =
     (case py_int w (row ''TARGET_PROXY'') of
        Inl e \<Rightarrow> Inl e
      | Inr i \<Rightarrow> Inr [Str (py_str w (row ''ENTY_ID'')), Num (NInt i)])"

definition create_inspections_and_relationships ::
  "world \<Rightarrow> analyzer \<Rightarrow> (exn + unit) \<times> analyzer" where
  "create_inspections_and_relationships w s =
     and_then (the_frame s)
       (\<lambda>d s0.
     and_then (insert_each w insert_inspections_sql (map (inspection_params w (columns d)) (rows d))
                 (print (Log (LogCreatingInspections (length (rows d)))) s0))
       (\<lambda>_ s1.
     and_then (connection_commit w s1)
       (\<lambda>_ s2.
     and_then (lift (select_distinct d [''ENTY_ID'', ''MONTH'']) s2)
       (\<lambda>entity_months s3.
     and_then (insert_each w insert_shipped_in_sql (map (shipped_in_params w) entity_months) s3)
       (\<lambda>_ s4.
     and_then (lift (select_distinct d [''ENTY_ID'', ''CTRY_CODE'']) s4)
       (\<lambda>entity_countries s5.
     and_then (insert_each w insert_is_from_sql (map (is_from_params w) entity_countries) s5)
       (\<lambda>_ s6.
     and_then (lift (select_distinct d [''ENTY_ID'', ''CTRY_CODE'', ''MONTH'']) s6)
       (\<lambda>entity_weather s7.
     and_then (insert_each w insert_has_weather_sql (map (has_weather_params w) entity_weather) s7)
       (\<lambda>_ s8.
     and_then (lift (select_distinct d [''ENTY_ID'', ''TARGET_PROXY'']) s8)
       (\<lambda>entity_targets s9.
     and_then (insert_each w insert_has_inspection_result_sql
                 (map (has_inspection_result_params w) entity_targets) s9)
       (\<lambda>_ s10. connection_commit w s10)))))))))))"

subsection \<open>get\_stats, create\_projection, cleanup, close\<close>

definition edge_tables :: "string list" where
  "edge_tables =
     [''shipped_in_edges'', ''is_from_edges'', ''has_weather_edges'',
      ''has_inspection_result_edges'']"

fun count_edges :: "world \<Rightarrow> string list \<Rightarrow> analyzer \<Rightarrow> (exn + unit) \<times> analyzer" where
  "count_edges w [] s = (Inr (), s)"
| "count_edges w (table # rest) s =
     and_then (cursor_execute w (count_sql table) [] s)
       (\<lambda>_ s1. and_then (cursor_fetch_count w s1)
       (\<lambda>_ s2. count_edges w rest s2))"

definition get_stats :: "world \<Rightarrow> analyzer \<Rightarrow> (exn + unit) \<times> analyzer" where
  "get_stats w s =
     and_then (cursor_execute w (count_sql ''entities'') [] (print (Log LogGatheringStats) s))
       (\<lambda>_ s1. and_then (cursor_fetch_count w s1)
       (\<lambda>_ s2. and_then (cursor_execute w (count_sql ''inspections'') [] s2)
       (\<lambda>_ s3. and_then (cursor_fetch_count w s3)
       (\<lambda>_ s4. count_edges w edge_tables s4))))"

definition create_projection :: "world \<Rightarrow> analyzer \<Rightarrow> (exn + unit) \<times> analyzer" where
  "create_projection w s = (Inr (), (print (Log LogGraphLoaded) s)\<lparr>graph := False\<rparr>)"

text \<open>\<^verbatim>\<open>cleanup\<close> and \<^verbatim>\<open>close\<close> catch every exception of the calls they make.\<close>

definition cleanup :: "world \<Rightarrow> analyzer \<Rightarrow> analyzer" where
  "cleanup w s =
     (let s0 = print (Log LogCleaningUp) s
      in if graph s0 then snd (call w GraphDestroy s0) else s0)"

definition close :: "world \<Rightarrow> analyzer \<Rightarrow> analyzer" where
  "close w s =
     (let s1 = (if pgx_session s then snd (call w PgxSessionClose (cleanup w s)) else s);
          s2 = (if cursor s1 \<noteq> None then snd (call w (CloseCursor AnalyzerConn) s1) else s1)
      in if connection s2 \<noteq> None then
           (case call w (CloseConn AnalyzerConn) s2 of
              (Inr _, s3) \<Rightarrow> print (Log LogConnectionClosed) s3
            | (Inl _, s3) \<Rightarrow> s3)
         else s2)"

subsection \<open>run\_full\_analysis\<close>

text \<open>The body of the \<^verbatim>\<open>try\<close> block.\<close>

definition pipeline :: "world \<Rightarrow> analyzer \<Rightarrow> (exn + unit) \<times> analyzer" where
  "pipeline w s =
     and_then (connect w s)
       (\<lambda>_ s1. and_then (load_data w s1)
       (\<lambda>_ s2. and_then (clear_database w s2)
       (\<lambda>_ s3. and_then (create_nodes w s3)
       (\<lambda>_ s4. and_then (create_inspections_and_relationships w s4)
       (\<lambda>_ s5. and_then (get_stats w s5)
       (\<lambda>_ s6. and_then (create_projection w s6)
       (\<lambda>_ s7. (Inr (), print (Log LogCompleted) s7))))))))"

text \<open>\<^verbatim>\<open>except Exception\<close> logs and raises again; \<^verbatim>\<open>finally\<close> closes in both cases.\<close>

definition run_full_analysis :: "world \<Rightarrow> analyzer \<Rightarrow> (exn + unit) \<times> analyzer" where
  "run_full_analysis w s =
     (case pipeline w (print (Log LogStarting) s) of
        (Inl e, s1) \<Rightarrow> (Inl e, close w (print (Log (LogFailed e)) s1))
      | (Inr u, s1) \<Rightarrow> (Inr u, close w s1))"

section \<open>Reading the trace of the analyzer\<close>

text \<open>
  \<open>adds P s s'\<close>: the analyzer \<open>s'\<close> is \<open>s\<close> with more calls in the trace, each of
  them satisfying \<open>P\<close>, and with the same output, frame, cursor, connection and
  settings.
\<close>

definition adds :: "(observed \<Rightarrow> bool) \<Rightarrow> analyzer \<Rightarrow> analyzer \<Rightarrow> bool" where
  "adds P s s' =
     ((\<exists>xs. trace s' = trace s @ xs \<and> list_all P xs) \<and> out s' = out s \<and>
      df s' = df s \<and> cursor s' = cursor s \<and> connection s' = connection s \<and>
      pgx_session s' = pgx_session s \<and> graph s' = graph s \<and>
      csv_path s' = csv_path s \<and> pgx_base_url s' = pgx_base_url s)"

text \<open>The number of bind placeholders of a statement.\<close>

definition placeholder_count :: "string \<Rightarrow> nat" where
  "placeholder_count q = length (filter (\<lambda>c. c = CHR '':'') q)"

definition node_statements :: "string list" where
  "node_statements =
     [insert_entities_sql, insert_countries_sql, insert_months_sql,
      insert_target_proxies_sql, insert_country_months_sql]"

definition edge_statements :: "string list" where
  "edge_statements =
     [insert_shipped_in_sql, insert_is_from_sql, insert_has_weather_sql,
      insert_has_inspection_result_sql]"

text \<open>The statement of a call to \<^verbatim>\<open>execute\<close> or \<^verbatim>\<open>executemany\<close>.\<close>

fun statement_of :: "event \<Rightarrow> string option" where
  "statement_of (Execute c q p) = Some q"
| "statement_of (ExecuteMany c q d) = Some q"
| "statement_of _ = None"

definition statements :: "observed list \<Rightarrow> string list" where
  "statements tr = concat (map (\<lambda>ob. case statement_of (fst ob) of Some q \<Rightarrow> [q] | None \<Rightarrow> []) tr)"

text \<open>The calls \<^verbatim>\<open>connect\<close> can make.\<close>

fun connect_event :: "event \<Rightarrow> bool" where
  "connect_event (DbConnect n) = True"
| "connect_event (OpenCursor c) = (c = AnalyzerConn)"
| "connect_event (Sleep d) = True"
| "connect_event (HttpRequest m url payload) = (m = GET \<and> payload = None)"
| "connect_event _ = False"

text \<open>The analyzer as \<^verbatim>\<open>__init__\<close> leaves it: nothing is connected or loaded.\<close>

definition initial :: "analyzer \<Rightarrow> bool" where
  "initial s =
     (connection s = None \<and> cursor s = None \<and> \<not> pgx_session s \<and> \<not> graph s \<and> df s = None)"

text \<open>The calls of \<^verbatim>\<open>close\<close> on an analyzer without a PGX session, when the first of
  them has index \<open>n\<close>: the cursor is closed if there is one, then the connection if
  there is one, whatever the first call did.\<close>

definition close_events :: "world \<Rightarrow> analyzer \<Rightarrow> nat \<Rightarrow> observed list" where
  "close_events w s n =
     (if cursor s \<noteq> None then [(CloseCursor AnalyzerConn, raises w n)] else []) @
     (if connection s \<noteq> None
      then [(CloseConn AnalyzerConn, raises w (if cursor s \<noteq> None then Suc n else n))]
      else [])"

text \<open>\<open>extends P s s'\<close>: the trace of \<open>s'\<close> is the trace of \<open>s\<close> followed by calls
  that satisfy \<open>P\<close>.\<close>

definition extends :: "(observed \<Rightarrow> bool) \<Rightarrow> analyzer \<Rightarrow> analyzer \<Rightarrow> bool" where
  "extends P s s' = (\<exists>xs. trace s' = trace s @ xs \<and> list_all P xs)"

text \<open>The frame has column \<open>c\<close>, and every cell of it is an integer.\<close>

fun is_int_cell :: "cell \<Rightarrow> bool" where
  "is_int_cell (Num (NInt i)) = True"
| "is_int_cell _ = False"

definition integer_column :: "string \<Rightarrow> frame \<Rightarrow> bool" where
  "integer_column c d = (c \<in> set (columns d) \<and> list_all (\<lambda>r. is_int_cell (r c)) (rows d))"

text \<open>The calls \<^verbatim>\<open>close\<close> and \<^verbatim>\<open>cleanup\<close> can make.\<close>

fun close_event :: "event \<Rightarrow> bool" where
  "close_event (CloseCursor c) = True"
| "close_event (CloseConn c) = True"
| "close_event GraphDestroy = True"
| "close_event PgxSessionClose = True"
| "close_event _ = False"

text \<open>
  The parameters of one INSERT into \<^verbatim>\<open>inspections\<close>: eleven values, of which the
  fourth (\<^verbatim>\<open>target_proxy\<close>) is an integer and the last (\<^verbatim>\<open>has_pest\<close>) is 0 or 1,
  and 1 exactly when the fourth is 1.
\<close>

definition has_pest_consistent :: "cell list \<Rightarrow> bool" where
  "has_pest_consistent p =
     (length p = 11 \<and> is_int_cell (p ! 3) \<and>
      (p ! 10 = Num (NInt 1) \<or> p ! 10 = Num (NInt 0)) \<and>
      (p ! 10 = Num (NInt 1) \<longleftrightarrow> p ! 3 = Num (NInt 1)))"

text \<open>A call that writes: a commit, or a statement of the set \<open>A\<close> with as many
  parameters as it has placeholders.\<close>

definition write_event :: "string set \<Rightarrow> observed \<Rightarrow> bool" where
  "write_event A ob =
     (case fst ob of
        Execute c q p \<Rightarrow> q \<in> A \<and> length p = placeholder_count q
      | Commit c \<Rightarrow> True
      | _ \<Rightarrow> False)"

section \<open>Concrete worlds and inputs\<close>

text \<open>A world in which no call raises, and every answer is empty.\<close>

definition quiet_world :: world where
  "quiet_world =
     \<lparr>raises = (\<lambda>n. None),
      frame_reply = (\<lambda>n. \<lparr>columns = [], rows = []\<rparr>),
      catalog_reply = (\<lambda>n. []),
      count_reply = (\<lambda>n. Some 0),
      http_reply = (\<lambda>n. \<lparr>status_code = 200, body = Some JNull\<rparr>),
      parse_number = (\<lambda>s. None),
      float_repr = (\<lambda>x. [])\<rparr>"

text \<open>The analyzer as \<^verbatim>\<open>__init__\<close> leaves it, with the defaults of \<^verbatim>\<open>main\<close>.\<close>

definition new_analyzer :: analyzer where
  "new_analyzer =
     \<lparr>trace = [], out = [],
      csv_path = ''/app/data/pest_data.csv'',
      pgx_base_url = ''http://oracle-db:7007'',
      connection = None, cursor = None, pgx_session = False, graph = False,
      df = None\<rparr>"

text \<open>
  The database refuses the first connection, accepts the second but fails to open its
  cursor (calls 0 and 3 of the trace raise), and accepts the third attempt.
\<close>

definition flaky_world :: world where
  "flaky_world = quiet_world\<lparr>raises := (\<lambda>n. if n = 0 \<or> n = 3 then Some DatabaseError else None)\<rparr>"

text \<open>The database is down: every call raises a database error.\<close>

definition down_world :: world where
  "down_world = quiet_world\<lparr>raises := (\<lambda>n. Some DatabaseError)\<rparr>"








text \<open>
  A CSV whose first data row repeats the header, as \<^verbatim>\<open>read_csv\<close> returns it: every
  cell is a string. The second inspection has an entry that is not a number.
\<close>

definition row_of :: "(string \<times> cell) list \<Rightarrow> string \<Rightarrow> cell" where
  "row_of kvs c = (case map_of kvs c of Some v \<Rightarrow> v | None \<Rightarrow> Num NNaN)"

definition pest_columns :: "string list" where
  "pest_columns =
     [''ENTY_ID'', ''CTRY_CODE'', ''MONTH'', ''TARGET_PROXY'', ''ENTY_EXAMS_30D'',
      ''ENTY_PESTS_30D'', ''ENTY_EXAMS_90D'', ''ENTY_PESTS_90D'', ''ENTY_EXAMS_1YR'',
      ''ENTY_PESTS_1YR'']"

definition pest_csv :: frame where
  "pest_csv =
     \<lparr>columns = pest_columns,
      rows =
        [row_of [(''ENTY_ID'', Str ''ENTY_ID''), (''CTRY_CODE'', Str ''CTRY_CODE''),
                 (''MONTH'', Str ''MONTH''), (''TARGET_PROXY'', Str ''TP''),
                 (''ENTY_EXAMS_30D'', Str ''ENTY_EXAMS_30D''), (''ENTY_PESTS_30D'', Str ''ENTY_PESTS_30D''),
                 (''ENTY_EXAMS_90D'', Str ''ENTY_EXAMS_90D''), (''ENTY_PESTS_90D'', Str ''ENTY_PESTS_90D''),
                 (''ENTY_EXAMS_1YR'', Str ''ENTY_EXAMS_1YR''), (''ENTY_PESTS_1YR'', Str ''ENTY_PESTS_1YR'')],
         row_of [(''ENTY_ID'', Str ''E1''), (''CTRY_CODE'', Str ''MX''),
                 (''MONTH'', Str ''Jan''), (''TARGET_PROXY'', Str ''1''),
                 (''ENTY_EXAMS_30D'', Str ''3''), (''ENTY_PESTS_30D'', Str ''1''),
                 (''ENTY_EXAMS_90D'', Str ''5''), (''ENTY_PESTS_90D'', Str ''2''),
                 (''ENTY_EXAMS_1YR'', Str ''5''), (''ENTY_PESTS_1YR'', Str ''2'')],
         row_of [(''ENTY_ID'', Str ''E2''), (''CTRY_CODE'', Str ''MX''),
                 (''MONTH'', Str ''Feb''), (''TARGET_PROXY'', Str ''0''),
                 (''ENTY_EXAMS_30D'', Str ''2''), (''ENTY_PESTS_30D'', Str ''n/a''),
                 (''ENTY_EXAMS_90D'', Str ''2''), (''ENTY_PESTS_90D'', Str ''0''),
                 (''ENTY_EXAMS_1YR'', Str ''3''), (''ENTY_PESTS_1YR'', Str ''0'')]]\<rparr>"

text \<open>The strings of that file that are numbers.\<close>

definition parse_small :: "string \<Rightarrow> num option" where
  "parse_small =
     map_of [(''0'', NInt 0), (''1'', NInt 1), (''2'', NInt 2), (''3'', NInt 3), (''5'', NInt 5)]"

definition csv_world :: world where
  "csv_world = quiet_world\<lparr>frame_reply := (\<lambda>n. pest_csv), parse_number := parse_small\<rparr>"

section \<open>The connection retry loop\<close>

lemma retry_trace_Cons:
  "os \<noteq> [] \<Longrightarrow>
   retry_trace n (a # os) = attempt_trace n a @ (Sleep 5, None) # retry_trace (Suc n) os"
  by (cases os) simp_all

lemma try_connect_cases:
  assumes "try_connect w n s = (r, s')"
  obtains
    (connect_raised) x where "r = Inl x" "trace s' = trace s @ attempt_trace n (ConnectRaised x)"
  | (cursor_raised) x where "r = Inl x" "trace s' = trace s @ attempt_trace n (CursorRaised x)"
  | (connected) "r = Inr ()" "trace s' = trace s @ attempt_trace n Connected"
      "connection s' = Some n" "cursor s' = Some n"
  using assms
  by (auto simp: try_connect_def call_def Let_def split: option.splits)

lemma connect_loop_shape:
  assumes "connect_loop w m [a ..< Suc m] s = (r, s')" and "a \<le> m"
  shows "\<exists>os. os \<noteq> [] \<and> a + length os \<le> Suc m \<and>
           trace s' = trace s @ retry_trace a os \<and>
           (\<forall>x \<in> set (butlast os). database_failure x) \<and>
           (case last os of
              Connected \<Rightarrow> r = Inr () \<and> connection s' = Some (a + length os - 1) \<and> cursor s' = Some (a + length os - 1)
            | ConnectRaised x \<Rightarrow> r = Inl x \<and> (is_DatabaseError x \<longrightarrow> a + length os = Suc m)
            | CursorRaised x \<Rightarrow> r = Inl x \<and> (is_DatabaseError x \<longrightarrow> a + length os = Suc m))"
  using assms
proof (induction "m - a" arbitrary: a s)
  case 0
  then have am: "a = m" by simp
  obtain r1 s1 where t: "try_connect w m s = (r1, s1)" by (cases "try_connect w m s")
  from t show ?case
  proof (cases rule: try_connect_cases)
    case (connect_raised x)
    with 0 t am show ?thesis
      by (intro exI[of _ "[ConnectRaised x]"]) (auto split: if_splits)
  next
    case (cursor_raised x)
    with 0 t am show ?thesis
      by (intro exI[of _ "[CursorRaised x]"]) (auto split: if_splits)
  next
    case connected
    with 0 t am show ?thesis
      by (intro exI[of _ "[Connected]"]) (auto split: if_splits)
  qed
next
  case (Suc d)
  then have am: "a < m" and d: "d = m - Suc a" by simp_all
  then have upt: "[a ..< Suc m] = a # [Suc a ..< Suc m]" by (simp add: upt_conv_Cons)
  obtain r1 s1 where t: "try_connect w a s = (r1, s1)" by (cases "try_connect w a s")
  have rec: "\<exists>os. os \<noteq> [] \<and> a + length os \<le> Suc m \<and>
           trace s' = trace s @ retry_trace a os \<and>
           (\<forall>x \<in> set (butlast os). database_failure x) \<and>
           (case last os of
              Connected \<Rightarrow> r = Inr () \<and> connection s' = Some (a + length os - 1) \<and> cursor s' = Some (a + length os - 1)
            | ConnectRaised x \<Rightarrow> r = Inl x \<and> (is_DatabaseError x \<longrightarrow> a + length os = Suc m)
            | CursorRaised x \<Rightarrow> r = Inl x \<and> (is_DatabaseError x \<longrightarrow> a + length os = Suc m))"
    if fail: "r1 = Inl x" "trace s1 = trace s @ attempt_trace a b" "database_failure b = is_DatabaseError x"
       "b = ConnectRaised x \<or> b = CursorRaised x"
    for x b
  proof (cases "is_DatabaseError x")
    case False
    with fail t Suc.prems upt show ?thesis
      by (intro exI[of _ "[b]"]) auto
  next
    case True
    with fail t Suc.prems upt am
    have "connect_loop w m [Suc a ..< Suc m] (sleep retry_delay s1) = (r, s')"
      by simp
    from Suc.hyps(1)[OF d this] am
    obtain os where os: "os \<noteq> []" "Suc a + length os \<le> Suc m"
      "trace s' = trace (sleep retry_delay s1) @ retry_trace (Suc a) os"
      "\<forall>x \<in> set (butlast os). database_failure x"
      "case last os of
              Connected \<Rightarrow> r = Inr () \<and> connection s' = Some (Suc a + length os - 1) \<and> cursor s' = Some (Suc a + length os - 1)
            | ConnectRaised x \<Rightarrow> r = Inl x \<and> (is_DatabaseError x \<longrightarrow> Suc a + length os = Suc m)
            | CursorRaised x \<Rightarrow> r = Inl x \<and> (is_DatabaseError x \<longrightarrow> Suc a + length os = Suc m)"
      by auto
    show ?thesis
    proof (intro exI[of _ "b # os"] conjI)
      show "b # os \<noteq> []" by simp
      show "a + length (b # os) \<le> Suc m" using os(2) by simp
      show "trace s' = trace s @ retry_trace a (b # os)"
        using os(1,3) fail(2) by (simp add: retry_trace_Cons sleep_def retry_delay_def)
      show "\<forall>x \<in> set (butlast (b # os)). database_failure x"
        using os(1,4) fail(3) True by simp
      show "case last (b # os) of
              Connected \<Rightarrow> r = Inr () \<and> connection s' = Some (a + length (b # os) - 1) \<and> cursor s' = Some (a + length (b # os) - 1)
            | ConnectRaised x \<Rightarrow> r = Inl x \<and> (is_DatabaseError x \<longrightarrow> a + length (b # os) = Suc m)
            | CursorRaised x \<Rightarrow> r = Inl x \<and> (is_DatabaseError x \<longrightarrow> a + length (b # os) = Suc m)"
        using os(1,5) by (auto split: attempt_outcome.splits)
    qed
  qed
  from t show ?case
  proof (cases rule: try_connect_cases)
    case (connect_raised x)
    then show ?thesis using rec[of x "ConnectRaised x"] by simp
  next
    case (cursor_raised x)
    then show ?thesis using rec[of x "CursorRaised x"] by simp
  next
    case connected
    with Suc.prems t upt show ?thesis
      by (intro exI[of _ "[Connected]"]) auto
  qed
qed


lemma try_connect_url: "try_connect w n s = (r, s') \<Longrightarrow> pgx_base_url s' = pgx_base_url s"
  by (auto simp: try_connect_def call_def Let_def split: option.splits)

lemma connect_loop_url: "connect_loop w m atts s = (r, s') \<Longrightarrow> pgx_base_url s' = pgx_base_url s"
proof (induction atts arbitrary: s)
  case Nil
  then show ?case by simp
next
  case (Cons a atts)
  obtain r1 s1 where t: "try_connect w a s = (r1, s1)" by (cases "try_connect w a s")
  have u: "pgx_base_url (sleep retry_delay s1) = pgx_base_url s"
    using try_connect_url[OF t] by (simp add: sleep_def)
  from Cons.prems t show ?case
    using Cons.IH[of "sleep retry_delay s1"] u try_connect_url[OF t]
    by (auto split: sum.splits if_splits)
qed

lemma pgx_probe_trace:
  "pgx_probe w s = (r, s') \<Longrightarrow>
   r = Inr () \<and> connection s' = connection s \<and> cursor s' = cursor s \<and>
   (\<exists>x. trace s' = trace s @ [(HttpRequest GET (pgx_base_url s @ ''/version'') None, x)])"
  by (auto simp: pgx_probe_def call_def Let_def)

text \<open>
  Claim C2. \<^verbatim>\<open>PestDataAnalyzer.connect\<close> makes between one and 30 attempts, numbered
  from 1 (the list \<open>os\<close> of their outcomes). The trace is these attempts with one
  sleep of 5 seconds between each two consecutive ones and none after the last. Every
  attempt but the last failed with a database error, so the loop stops at the first
  attempt that succeeds. The last attempt decides the result: when it succeeded,
  \<open>connect\<close> returns with the connection and cursor of that attempt (after the single
  probe of the PGX server, which never raises); when it raised, the exception reaches
  the caller, and a database error does so only from attempt 30.
\<close>

theorem connect_retries:
  assumes "connect w s = (r, s')"
  shows "\<exists>os probe. 1 \<le> length os \<and> length os \<le> 30 \<and>
           trace s' = trace s @ retry_trace 1 os @ probe \<and>
           (\<forall>x \<in> set (butlast os). database_failure x) \<and>
           final_outcome (length os) (last os) r \<and>
           (r = Inr () \<longrightarrow> connection s' = Some (length os) \<and> cursor s' = Some (length os)) \<and>
           (r = Inr () \<longrightarrow> (\<exists>x. probe = [(HttpRequest GET (pgx_base_url s @ ''/version'') None, x)])) \<and>
           (r \<noteq> Inr () \<longrightarrow> probe = [])"
proof -
  define s0 where "s0 = print (Log LogConnecting) s"
  have s0: "trace s0 = trace s" "pgx_base_url s0 = pgx_base_url s"
    by (simp_all add: s0_def print_def)
  obtain r1 s1 where l: "connect_loop w max_retries [1 ..< Suc max_retries] s0 = (r1, s1)"
    by (cases "connect_loop w max_retries [1 ..< Suc max_retries] s0")
  from connect_loop_shape[OF l] obtain os where os: "os \<noteq> []" "1 + length os \<le> Suc max_retries"
    "trace s1 = trace s @ retry_trace 1 os"
    "\<forall>x \<in> set (butlast os). database_failure x"
    "case last os of
              Connected \<Rightarrow> r1 = Inr () \<and> connection s1 = Some (1 + length os - 1) \<and> cursor s1 = Some (1 + length os - 1)
            | ConnectRaised x \<Rightarrow> r1 = Inl x \<and> (is_DatabaseError x \<longrightarrow> 1 + length os = Suc max_retries)
            | CursorRaised x \<Rightarrow> r1 = Inl x \<and> (is_DatabaseError x \<longrightarrow> 1 + length os = Suc max_retries)"
    by (auto simp: max_retries_def s0(1))
  show ?thesis
  proof (cases r1)
    case (Inl e)
    with assms l have "r = Inl e" "s' = s1" by (simp_all add: connect_def s0_def)
    with os Inl show ?thesis
      by (intro exI[of _ os] exI[of _ "[]"])
         (auto simp: max_retries_def Suc_le_eq split: attempt_outcome.splits)
  next
    case (Inr u)
    with assms l have p: "pgx_probe w s1 = (r, s')" by (simp add: connect_def s0_def)
    have url: "pgx_base_url s1 = pgx_base_url s" using connect_loop_url[OF l] s0(2) by simp
    from pgx_probe_trace[OF p] obtain x where
      x: "r = Inr ()" "connection s' = connection s1" "cursor s' = cursor s1"
         "trace s' = trace s1 @ [(HttpRequest GET (pgx_base_url s1 @ ''/version'') None, x)]"
      by auto
    with os Inr url show ?thesis
      by (intro exI[of _ os] exI[of _ "[(HttpRequest GET (pgx_base_url s @ ''/version'') None, x)]"])
         (auto simp: max_retries_def Suc_le_eq split: attempt_outcome.splits)
  qed
qed

theorem connect_retries_witness:
  "fst (connect flaky_world new_analyzer) = Inr () \<and>
   (\<exists>os probe. length os = 3 \<and> last os = Connected \<and>
      trace (snd (connect flaky_world new_analyzer)) = retry_trace 1 os @ probe \<and>
      list_all database_failure (butlast os)) \<and>
   fst (connect down_world new_analyzer) = Inl DatabaseError \<and>
   (\<exists>os. length os = 30 \<and>
      trace (snd (connect down_world new_analyzer)) = retry_trace 1 os \<and>
      list_all database_failure os)"
proof -
  note ev = connect_def max_retries_def retry_delay_def pgx_probe_def try_connect_def
    call_def sleep_def print_def quiet_world_def new_analyzer_def Let_def upt_conv_Cons
  have up: "fst (connect flaky_world new_analyzer) = Inr ()"
    "connection (snd (connect flaky_world new_analyzer)) = Some 3"
    by (simp_all add: ev flaky_world_def)
  have down: "fst (connect down_world new_analyzer) = Inl DatabaseError"
    by (simp add: ev down_world_def)
  from connect_retries[where w = flaky_world and s = new_analyzer, OF surjective_pairing]
  obtain os probe where os: "1 \<le> length os"
    "trace (snd (connect flaky_world new_analyzer)) = trace new_analyzer @ retry_trace 1 os @ probe"
    "\<forall>x \<in> set (butlast os). database_failure x"
    "final_outcome (length os) (last os) (fst (connect flaky_world new_analyzer))"
    "connection (snd (connect flaky_world new_analyzer)) = Some (length os)"
    using up(1) by auto
  have 1: "\<exists>os probe. length os = 3 \<and> last os = Connected \<and>
      trace (snd (connect flaky_world new_analyzer)) = retry_trace 1 os @ probe \<and>
      list_all database_failure (butlast os)"
  proof (intro exI[of _ os] exI[of _ probe] conjI)
    show "length os = 3" using os(5) up(2) by simp
    show "last os = Connected" using os(4) up(1) by (cases "last os") simp_all
    show "trace (snd (connect flaky_world new_analyzer)) = retry_trace 1 os @ probe"
      using os(2) by (simp add: new_analyzer_def)
    show "list_all database_failure (butlast os)" using os(3) by (simp add: list_all_iff)
  qed
  from connect_retries[where w = down_world and s = new_analyzer, OF surjective_pairing]
  obtain os' probe' where os': "1 \<le> length os'"
    "trace (snd (connect down_world new_analyzer)) = trace new_analyzer @ retry_trace 1 os' @ probe'"
    "\<forall>x \<in> set (butlast os'). database_failure x"
    "final_outcome (length os') (last os') (fst (connect down_world new_analyzer))"
    "probe' = []"
    using down by auto
  have ne: "os' \<noteq> []" using os'(1) by auto
  have last': "database_failure (last os') \<and> length os' = 30"
    using os'(4) down by (cases "last os'") auto
  have "\<forall>x \<in> set os'. database_failure x"
    using os'(3) last' ne by (metis append_butlast_last_id insert_iff list.set(2) rotate1.simps(2) set_rotate1)
  then have 2: "\<exists>os. length os = 30 \<and>
      trace (snd (connect down_world new_analyzer)) = retry_trace 1 os \<and>
      list_all database_failure os"
    using os'(2,5) last' by (intro exI[of _ os']) (simp add: new_analyzer_def list_all_iff)
  from up(1) 1 down 2 show ?thesis by blast
qed

section \<open>Copying a table\<close>





lemma length_drop_events: "length (drop_events w t n) = (if raises w n = None then 2 else 1)"
  by (simp add: drop_events_def split: option.splits)




lemma execute_calls_simps:
  "execute_calls [] = []"
  "execute_calls (ob # tr) = (case fst ob of Execute c q p \<Rightarrow> [(c, q, p)] | _ \<Rightarrow> []) @ execute_calls tr"
  "execute_calls (tr @ tr') = execute_calls tr @ execute_calls tr'"
  by (simp_all add: execute_calls_def)


















section \<open>The REST client\<close>





section \<open>Loading and cleaning the CSV\<close>

lemma sequence_Inr:
  "sequence xs = Inr ys \<Longrightarrow> length ys = length xs \<and> (\<forall>k < length xs. xs ! k = Inr (ys ! k))"
proof (induction xs arbitrary: ys)
  case Nil
  then show ?case by simp
next
  case (Cons x xs)
  then show ?case
    by (cases x) (auto split: sum.splits simp: nth_Cons')
qed

lemma convert_column_result:
  assumes "convert_column w c d = (Inr u, d')"
  shows "columns d' = columns d" "length (rows d') = length (rows d)"
    "\<And>k. k < length (rows d) \<Longrightarrow>
       \<exists>i. convert_cell w ((rows d ! k) c) = Inr i \<and> (rows d' ! k) c = Num (NInt i)"
    "\<And>k c'. k < length (rows d) \<Longrightarrow> c' \<noteq> c \<Longrightarrow> (rows d' ! k) c' = (rows d ! k) c'"
proof -
  from assms obtain vs where vs: "sequence (map (\<lambda>r. convert_cell w (r c)) (rows d)) = Inr vs"
    "d' = d\<lparr>rows := map (\<lambda>(r, v). r(c := Num (NInt v))) (zip (rows d) vs)\<rparr>"
    by (auto simp: convert_column_def split: sum.splits)
  from sequence_Inr[OF vs(1)] have len: "length vs = length (rows d)"
    and nth: "\<And>k. k < length (rows d) \<Longrightarrow> convert_cell w ((rows d ! k) c) = Inr (vs ! k)"
    by auto
  show "columns d' = columns d" by (simp add: vs(2))
  show "length (rows d') = length (rows d)" by (simp add: vs(2) len)
  show "\<exists>i. convert_cell w ((rows d ! k) c) = Inr i \<and> (rows d' ! k) c = Num (NInt i)"
    if "k < length (rows d)" for k
    using that nth[OF that] by (simp add: vs(2) len)
  show "(rows d' ! k) c' = (rows d ! k) c'" if "k < length (rows d)" "c' \<noteq> c" for k c'
    using that by (simp add: vs(2) len)
qed

lemma convert_columns_result:
  assumes "convert_columns w cs d = (Inr u, d')" "distinct cs"
  shows "columns d' = columns d \<and> length (rows d') = length (rows d) \<and>
    (\<forall>k c. k < length (rows d) \<longrightarrow>
       (c \<in> set cs \<and> c \<in> set (columns d) \<longrightarrow>
          (\<exists>i. convert_cell w ((rows d ! k) c) = Inr i \<and> (rows d' ! k) c = Num (NInt i))) \<and>
       (c \<notin> set cs \<or> c \<notin> set (columns d) \<longrightarrow> (rows d' ! k) c = (rows d ! k) c))"
  using assms
proof (induction cs arbitrary: d)
  case Nil
  then show ?case by simp
next
  case (Cons a cs)
  show ?case
  proof (cases "a \<in> set (columns d)")
    case False
    with Cons.prems have "convert_columns w cs d = (Inr u, d')" by simp
    from Cons.IH[OF this] Cons.prems(2) False show ?thesis by auto
  next
    case True
    with Cons.prems obtain d1 where d1: "convert_column w a d = (Inr (), d1)"
      "convert_columns w cs d1 = (Inr u, d')"
      by (auto simp: and_then_def split: prod.splits sum.splits)
    note c1 = convert_column_result[OF d1(1)]
    from Cons.IH[OF d1(2)] Cons.prems(2)
    have ih: "columns d' = columns d1" "length (rows d') = length (rows d1)"
      "\<And>k c. k < length (rows d1) \<Longrightarrow> c \<in> set cs \<Longrightarrow> c \<in> set (columns d1) \<Longrightarrow>
          (\<exists>i. convert_cell w ((rows d1 ! k) c) = Inr i \<and> (rows d' ! k) c = Num (NInt i))"
      "\<And>k c. k < length (rows d1) \<Longrightarrow> c \<notin> set cs \<or> c \<notin> set (columns d1) \<Longrightarrow>
          (rows d' ! k) c = (rows d1 ! k) c"
      by auto
    have an: "a \<notin> set cs" using Cons.prems(2) by simp
    show ?thesis
    proof (intro conjI allI impI)
      show "columns d' = columns d" using ih(1) c1(1) by simp
      show "length (rows d') = length (rows d)" using ih(2) c1(2) by simp
    next
      fix k c assume k: "k < length (rows d)" and c: "c \<in> set (a # cs) \<and> c \<in> set (columns d)"
      show "\<exists>i. convert_cell w ((rows d ! k) c) = Inr i \<and> (rows d' ! k) c = Num (NInt i)"
      proof (cases "c = a")
        case True
        with c1(3)[OF k] ih(4)[of k a] an k c1(2) show ?thesis by auto
      next
        case False
        with c have cc: "c \<in> set cs" "c \<in> set (columns d1)" using c1(1) by auto
        from ih(3)[of k c] cc k c1(2) c1(4)[OF k False] show ?thesis by auto
      qed
    next
      fix k c assume k: "k < length (rows d)" and c: "c \<notin> set (a # cs) \<or> c \<notin> set (columns d)"
      with True have ca: "c \<noteq> a" by auto
      from c have cc: "c \<notin> set cs \<or> c \<notin> set (columns d1)" using c1(1) by auto
      from ih(4)[of k c] cc k c1(2) c1(4)[OF k ca] show "(rows d' ! k) c = (rows d ! k) c"
        by auto
    qed
  qed
qed


lemma first_row_is_header_Inr:
  assumes "first_row_is_header w d = Inr h" "''ENTY_ID'' \<in> set (columns d)"
  shows "rows d \<noteq> [] \<and> ''TARGET_PROXY'' \<in> set (columns d) \<and>
         h = (equals_str (hd (rows d) ''TARGET_PROXY'') ''TP'' \<or>
              py_str w (hd (rows d) ''ENTY_ID'') = ''ENTY_ID'')"
  using assms
  by (auto simp: first_row_is_header_def item_def split: list.splits if_splits)



section \<open>The calls of each stage of the pipeline\<close>

lemma adds_refl: "adds P s s"
  by (simp add: adds_def)

lemma adds_trans: "adds P s s1 \<Longrightarrow> adds P s1 s2 \<Longrightarrow> adds P s s2"
  by (auto simp: adds_def)

lemma adds_mono: "adds P s s' \<Longrightarrow> (\<And>x. P x \<Longrightarrow> Q x) \<Longrightarrow> adds Q s s'"
  by (auto simp: adds_def list_all_iff)

lemma adds_new_events: "adds P s s' \<Longrightarrow> list_all P (new_events s s')"
  by (auto simp: adds_def new_events_def)

lemma adds_trace: "adds P s s' \<Longrightarrow> trace s' = trace s @ new_events s s'"
  by (auto simp: adds_def new_events_def)

lemma adds_and_then:
  fixes m :: "(exn + 'a) \<times> analyzer"
  assumes "adds P s (snd m)" and "\<And>x s0. adds P s0 (snd (f x s0))"
  shows "adds P s (snd (and_then m f))"
proof (cases m)
  case (Pair r0 s0)
  show ?thesis
  proof (cases r0)
    case (Inl e)
    with Pair assms(1) show ?thesis by (simp add: and_then_def)
  next
    case (Inr x)
    with Pair assms(1) assms(2)[of s0 x] show ?thesis
      by (auto simp: and_then_def intro: adds_trans)
  qed
qed

lemma adds_the_frame: "adds P s (snd (the_frame s))"
  by (simp add: the_frame_def adds_refl split: option.splits)

lemma adds_lift: "adds P s (snd (lift x s))"
  by (simp add: lift_def adds_refl)

lemma adds_result: "adds P s (snd (r, s))"
  by (simp add: adds_refl)

lemma adds_cursor_execute:
  "(\<And>x. P (Execute AnalyzerConn q p, x)) \<Longrightarrow> adds P s (snd (cursor_execute w q p s))"
  by (auto simp: cursor_execute_def call_def adds_def Let_def)

lemma adds_connection_commit:
  "(\<And>x. P (Commit AnalyzerConn, x)) \<Longrightarrow> adds P s (snd (connection_commit w s))"
  by (auto simp: connection_commit_def call_def adds_def Let_def)

lemma adds_cursor_fetch_count:
  "(\<And>x. P (Fetchone AnalyzerConn, x)) \<Longrightarrow> adds P s (snd (cursor_fetch_count w s))"
  by (auto simp: cursor_fetch_count_def fetch_count_def and_then_def call_def adds_def Let_def
      split: option.splits)

lemma adds_insert_each:
  "(\<And>p x. Inr p \<in> set ps \<Longrightarrow> P (Execute AnalyzerConn q p, x)) \<Longrightarrow>
   adds P s (snd (insert_each w q ps s))"
proof (induction ps arbitrary: s)
  case Nil
  then show ?case by (simp add: adds_refl)
next
  case (Cons a ps)
  show ?case
  proof (cases a)
    case (Inl e)
    then show ?thesis by (simp add: adds_refl)
  next
    case (Inr params)
    have a: "adds P s (snd (cursor_execute w q params s))"
      by (rule adds_cursor_execute) (simp add: Cons.prems Inr)
    have b: "adds P s0 (snd (insert_each w q ps s0))" for s0
      by (rule Cons.IH) (simp add: Cons.prems)
    show ?thesis
      unfolding Inr insert_each.simps by (rule adds_and_then[OF a]) (rule b)
  qed
qed

lemma placeholder_counts:
  "placeholder_count insert_entities_sql = 2"
  "placeholder_count insert_countries_sql = 2"
  "placeholder_count insert_months_sql = 2"
  "placeholder_count insert_target_proxies_sql = 2"
  "placeholder_count insert_country_months_sql = 3"
  "placeholder_count insert_inspections_sql = 11"
  "placeholder_count insert_shipped_in_sql = 2"
  "placeholder_count insert_is_from_sql = 2"
  "placeholder_count insert_has_weather_sql = 2"
  "placeholder_count insert_has_inspection_result_sql = 2"
  by (simp_all add: placeholder_count_def insert_entities_sql_def insert_countries_sql_def
      insert_months_sql_def insert_target_proxies_sql_def insert_country_months_sql_def
      insert_inspections_sql_def insert_shipped_in_sql_def insert_is_from_sql_def
      insert_has_weather_sql_def insert_has_inspection_result_sql_def newline_def)

lemma country_month_params_length:
  "Inr p \<in> set (country_month_params w cols seen rs) \<Longrightarrow> length p = 3"
  by (induction rs arbitrary: seen) (auto split: sum.splits if_splits)

lemma target_params_length: "Inr p = target_params w t \<Longrightarrow> length p = 2"
  by (auto simp: target_params_def split: sum.splits)

lemma adds_create_nodes:
  assumes "\<And>x. P (Commit AnalyzerConn, x)"
    and "\<And>q p x. q \<in> set node_statements \<Longrightarrow> length p = placeholder_count q \<Longrightarrow>
           P (Execute AnalyzerConn q p, x)"
  shows "adds P (print (Log LogCreatingNodes) s) (snd (create_nodes w s))"
  unfolding create_nodes_def
  by (intro adds_and_then adds_the_frame adds_lift adds_insert_each adds_connection_commit assms)
     (auto simp: node_statements_def placeholder_counts entity_params_def country_params_def
        month_params_def dest: country_month_params_length target_params_length)

lemma adds_create_inspections:
  assumes "df s = Some d"
    and "\<And>x. P (Commit AnalyzerConn, x)"
    and "\<And>row p x. row \<in> set (rows d) \<Longrightarrow> inspection_params w (columns d) row = Inr p \<Longrightarrow>
           P (Execute AnalyzerConn insert_inspections_sql p, x)"
    and "\<And>q p x. q \<in> set edge_statements \<Longrightarrow> length p = 2 \<Longrightarrow> P (Execute AnalyzerConn q p, x)"
  shows "adds P (print (Log (LogCreatingInspections (length (rows d)))) s)
           (snd (create_inspections_and_relationships w s))"
proof -
  have tf: "the_frame s = (Inr d, s)" by (simp add: the_frame_def assms(1))
  have ins: "adds P (print (Log (LogCreatingInspections (length (rows d)))) s)
      (snd (insert_each w insert_inspections_sql (map (inspection_params w (columns d)) (rows d))
         (print (Log (LogCreatingInspections (length (rows d)))) s)))"
    by (rule adds_insert_each) (auto intro: assms(3))
  show ?thesis
    unfolding create_inspections_and_relationships_def tf
    apply (subst and_then_def)
    apply (simp only: prod.case sum.case)
    apply (rule adds_and_then[OF ins])
    apply (intro adds_and_then adds_lift adds_insert_each adds_connection_commit assms(2))
    apply (auto simp: edge_statements_def shipped_in_params_def is_from_params_def
        has_weather_params_def has_inspection_result_params_def intro!: assms(4) split: sum.splits)
    done
qed

lemma create_inspections_no_frame:
  "df s = None \<Longrightarrow> create_inspections_and_relationships w s = (Inl TypeError, s)"
  by (simp add: create_inspections_and_relationships_def the_frame_def and_then_def)

lemma adds_count_edges:
  assumes "\<And>t x. P (Execute AnalyzerConn (count_sql t) [], x)" "\<And>x. P (Fetchone AnalyzerConn, x)"
  shows "adds P s (snd (count_edges w ts s))"
proof (induction ts arbitrary: s)
  case Nil
  then show ?case by (simp add: adds_refl)
next
  case (Cons t ts)
  show ?case
    unfolding count_edges.simps
    by (intro adds_and_then adds_cursor_execute adds_cursor_fetch_count assms Cons.IH)
qed

lemma adds_get_stats:
  assumes "\<And>t x. P (Execute AnalyzerConn (count_sql t) [], x)" "\<And>x. P (Fetchone AnalyzerConn, x)"
  shows "adds P (print (Log LogGatheringStats) s) (snd (get_stats w s))"
  unfolding get_stats_def
  by (intro adds_and_then adds_cursor_execute adds_cursor_fetch_count adds_count_edges assms)

lemma adds_clear_tables:
  assumes "\<And>t x. P (Execute AnalyzerConn (delete_sql t) [], x)"
  shows "adds P s (clear_tables w ts s)"
proof (induction ts arbitrary: s)
  case Nil
  then show ?case by (simp add: adds_refl)
next
  case (Cons t ts)
  have a: "adds P s (snd (cursor_execute w (delete_sql t) [] s))"
    by (rule adds_cursor_execute) (rule assms)
  show ?case
    using adds_trans[OF a Cons.IH[of "snd (cursor_execute w (delete_sql t) [] s)"]]
    by (cases "cursor_execute w (delete_sql t) [] s") simp
qed

lemma adds_clear_database:
  assumes "\<And>t x. P (Execute AnalyzerConn (delete_sql t) [], x)" "\<And>x. P (Commit AnalyzerConn, x)"
  shows "adds P (print (Log LogClearing) s) (snd (clear_database w s))"
  unfolding clear_database_def
  by (rule adds_trans[OF adds_clear_tables adds_connection_commit]) (rule assms)+

lemma extends_refl: "extends P s s"
  by (simp add: extends_def)

lemma extends_trans: "extends P s s1 \<Longrightarrow> extends P s1 s2 \<Longrightarrow> extends P s s2"
  by (auto simp: extends_def)

lemma adds_extends: "adds P s s' \<Longrightarrow> extends P s s'"
  by (auto simp: adds_def extends_def)

lemma extends_print_left: "extends P (print m s) s' \<Longrightarrow> extends P s s'"
  by (simp add: extends_def print_def)

lemma extends_print_right: "extends P s s' \<Longrightarrow> extends P s (print m s')"
  by (simp add: extends_def print_def)

lemma extends_new_events: "extends P s s' \<Longrightarrow> list_all P (new_events s s')"
  by (auto simp: extends_def new_events_def)

lemma extends_trace: "extends P s s' \<Longrightarrow> trace s' = trace s @ new_events s s'"
  by (auto simp: extends_def new_events_def)

lemma try_connect_effect:
  assumes "try_connect w n s = (r, s')"
  shows "extends (\<lambda>ob. connect_event (fst ob)) s s'" "out s' = out s" "df s' = df s"
    "csv_path s' = csv_path s" "pgx_session s' = pgx_session s" "graph s' = graph s"
    "r = Inr () \<longrightarrow> cursor s' \<noteq> None \<and> connection s' \<noteq> None"
    "r \<noteq> Inr () \<longrightarrow> cursor s' = cursor s"
  using assms
  by (auto simp: try_connect_def call_def Let_def extends_def split: option.splits)

lemma connect_loop_effect:
  assumes "connect_loop w m atts s = (r, s')"
  shows "extends (\<lambda>ob. connect_event (fst ob)) s s' \<and> out s' = out s \<and> df s' = df s \<and>
    csv_path s' = csv_path s \<and> pgx_session s' = pgx_session s \<and> graph s' = graph s \<and>
    (r \<noteq> Inr () \<longrightarrow> cursor s' = cursor s)"
  using assms
proof (induction atts arbitrary: s)
  case Nil
  then show ?case by (simp add: extends_refl)
next
  case (Cons a atts)
  obtain r1 s1 where t: "try_connect w a s = (r1, s1)" by (cases "try_connect w a s")
  note e = try_connect_effect[OF t]
  show ?case
  proof (cases "\<exists>e. r1 = Inl e \<and> is_DatabaseError e \<and> a < m")
    case False
    with Cons.prems t have "r = r1" "s' = s1"
      by (auto split: sum.splits if_splits)
    with e show ?thesis by auto
  next
    case True
    with Cons.prems t have l: "connect_loop w m atts (sleep retry_delay s1) = (r, s')" by auto
    have sl: "extends (\<lambda>ob. connect_event (fst ob)) s1 (sleep retry_delay s1)"
      by (simp add: extends_def sleep_def)
    have f: "out (sleep retry_delay s1) = out s1" "df (sleep retry_delay s1) = df s1"
      "csv_path (sleep retry_delay s1) = csv_path s1" "pgx_session (sleep retry_delay s1) = pgx_session s1"
      "graph (sleep retry_delay s1) = graph s1" "cursor (sleep retry_delay s1) = cursor s1"
      by (simp_all add: sleep_def)
    from Cons.IH[OF l] e sl f True show ?thesis
      by (auto intro: extends_trans)
  qed
qed

lemma connect_effect:
  assumes "connect w s = (r, s')"
  shows "extends (\<lambda>ob. connect_event (fst ob)) s s'" "out s' = out s @ [Log LogConnecting]"
    "df s' = df s" "csv_path s' = csv_path s"
    "r = Inr () \<longrightarrow> cursor s' \<noteq> None \<and> connection s' \<noteq> None \<and> \<not> pgx_session s' \<and> \<not> graph s'"
    "r \<noteq> Inr () \<longrightarrow> cursor s' = cursor s \<and> pgx_session s' = pgx_session s \<and> graph s' = graph s"
proof -
  let ?s0 = "print (Log LogConnecting) s"
  obtain r1 s1 where l: "connect_loop w max_retries [1 ..< max_retries + 1] ?s0 = (r1, s1)"
    by (cases "connect_loop w max_retries [1 ..< max_retries + 1] ?s0")
  note e = connect_loop_effect[OF l]
  have l': "connect_loop w max_retries [1 ..< Suc max_retries] ?s0 = (r1, s1)"
    using l by simp
  have ok: "cursor s1 \<noteq> None \<and> connection s1 \<noteq> None" if "r1 = Inr u" for u
  proof -
    from connect_loop_shape[OF l'] obtain os where
      "case last os of
         ConnectRaised x \<Rightarrow> r1 = Inl x \<and> (is_DatabaseError x \<longrightarrow> 1 + length os = Suc max_retries)
       | CursorRaised x \<Rightarrow> r1 = Inl x \<and> (is_DatabaseError x \<longrightarrow> 1 + length os = Suc max_retries)
       | Connected \<Rightarrow> r1 = Inr () \<and> connection s1 = Some (1 + length os - 1) \<and>
           cursor s1 = Some (1 + length os - 1)"
      by (auto simp: max_retries_def)
    with that show ?thesis by (cases "last os") auto
  qed
  have all: "extends (\<lambda>ob. connect_event (fst ob)) s s' \<and> out s' = out s @ [Log LogConnecting] \<and>
    df s' = df s \<and> csv_path s' = csv_path s \<and>
    (r = Inr () \<longrightarrow> cursor s' \<noteq> None \<and> connection s' \<noteq> None \<and> \<not> pgx_session s' \<and> \<not> graph s') \<and>
    (r \<noteq> Inr () \<longrightarrow> cursor s' = cursor s \<and> pgx_session s' = pgx_session s \<and> graph s' = graph s)"
  proof (cases r1)
    case (Inl x)
    with assms l have "r = Inl x" "s' = s1" by (simp_all add: connect_def)
    with e Inl show ?thesis by (auto simp: print_def extends_def)
  next
    case (Inr u)
    with assms l have "pgx_probe w s1 = (r, s')" by (simp add: connect_def)
    then have p: "r = Inr ()" "extends (\<lambda>ob. connect_event (fst ob)) s1 s'" "out s' = out s1"
      "df s' = df s1" "csv_path s' = csv_path s1" "cursor s' = cursor s1" "connection s' = connection s1"
      "\<not> pgx_session s'" "\<not> graph s'"
      by (auto simp: pgx_probe_def call_def Let_def extends_def)
    from e Inr ok[OF Inr] p show ?thesis
      by (auto simp: print_def extends_def)
  qed
  then show "extends (\<lambda>ob. connect_event (fst ob)) s s'" "out s' = out s @ [Log LogConnecting]"
    "df s' = df s" "csv_path s' = csv_path s"
    "r = Inr () \<longrightarrow> cursor s' \<noteq> None \<and> connection s' \<noteq> None \<and> \<not> pgx_session s' \<and> \<not> graph s'"
    "r \<noteq> Inr () \<longrightarrow> cursor s' = cursor s \<and> pgx_session s' = pgx_session s \<and> graph s' = graph s"
    by simp_all
qed

lemma load_data_effect:
  assumes "load_data w s = (r, s')"
  shows "trace s' = trace s @ [(ReadCsv (csv_path s), raises w (length (trace s)))]"
    "out s' = out s @ [Log (LogLoading (csv_path s))]"
    "cursor s' = cursor s" "connection s' = connection s" "pgx_session s' = pgx_session s"
    "graph s' = graph s" "csv_path s' = csv_path s"
  using assms
  by (auto simp: load_data_def read_csv_def and_then_def call_def print_def Let_def
      split: option.splits sum.splits prod.splits)

lemma load_data_integer_target:
  assumes "load_data w s = (Inr u, s')"
  shows "\<exists>d. df s' = Some d \<and> integer_column ''TARGET_PROXY'' d"
proof -
  let ?raw = "frame_reply w (length (trace s))"
  from assms obtain h d2 where
    h: "first_row_is_header w ?raw = Inr h"
    and cv: "convert_columns w numeric_columns (if h then drop_first_row ?raw else ?raw) = (Inr (), d2)"
    and en: "''ENTY_ID'' \<in> set (columns d2)"
    and df: "df s' = Some d2"
    by (auto simp: load_data_def read_csv_def and_then_def call_def print_def Let_def column_def
        split: option.splits sum.splits prod.splits if_splits)
  define d1 where "d1 = (if h then drop_first_row ?raw else ?raw)"
  have dist: "distinct numeric_columns" by (simp add: numeric_columns_def)
  have cv1: "convert_columns w numeric_columns d1 = (Inr (), d2)" using cv by (simp add: d1_def)
  from convert_columns_result[OF cv1 dist]
  have r: "columns d2 = columns d1" "length (rows d2) = length (rows d1)"
    "\<And>k c. k < length (rows d1) \<Longrightarrow> c \<in> set numeric_columns \<Longrightarrow> c \<in> set (columns d1) \<Longrightarrow>
        \<exists>i. convert_cell w ((rows d1 ! k) c) = Inr i \<and> (rows d2 ! k) c = Num (NInt i)"
    by blast+
  have c1: "columns d1 = columns ?raw" by (simp add: d1_def drop_first_row_def)
  have en': "''ENTY_ID'' \<in> set (columns ?raw)" using en r(1) c1 by simp
  from first_row_is_header_Inr[OF h en'] have tp: "''TARGET_PROXY'' \<in> set (columns d1)"
    using c1 by simp
  have tn: "''TARGET_PROXY'' \<in> set numeric_columns" by (simp add: numeric_columns_def)
  have "\<exists>i. row ''TARGET_PROXY'' = Num (NInt i)" if "row \<in> set (rows d2)" for row
  proof -
    from that obtain k where k: "k < length (rows d2)" "rows d2 ! k = row"
      by (auto simp: in_set_conv_nth)
    with r(3)[of k "''TARGET_PROXY''"] r(2) tn tp show ?thesis by auto
  qed
  then have "integer_column ''TARGET_PROXY'' d2"
    using tp r(1) by (fastforce simp: integer_column_def list_all_iff)
  with df show ?thesis by blast
qed

lemma create_projection_effect:
  assumes "create_projection w s = (r, s')"
  shows "r = Inr ()" "trace s' = trace s" "out s' = out s @ [Log LogGraphLoaded]"
    "cursor s' = cursor s" "connection s' = connection s" "pgx_session s' = pgx_session s"
  using assms by (auto simp: create_projection_def print_def)

lemma close_effect:
  assumes "\<not> pgx_session s"
  shows "trace (close w s) = trace s @ close_events w s (length (trace s))"
    "cursor (close w s) = cursor s" "connection (close w s) = connection s"
    "\<exists>ms. out (close w s) = out s @ ms \<and> set ms \<subseteq> {Log LogConnectionClosed}"
  using assms
  by (auto simp: close_def close_events_def call_def print_def Let_def split: option.splits)

lemma and_then_E:
  assumes "and_then m f = (r, s')"
  obtains (raised) e where "m = (Inl e, s')" "r = Inl e"
  | (returned) x s1 where "m = (Inr x, s1)" "f x s1 = (r, s')"
  using assms by (auto simp: and_then_def split: prod.splits sum.splits)

lemma close_extends: "extends (\<lambda>ob. close_event (fst ob)) s (close w s)"
  by (auto simp: close_def cleanup_def call_def print_def Let_def extends_def split: option.splits)

lemma pipeline_cases:
  assumes "pipeline w s = (r, s')"
  obtains
    (connect_raised) e where "connect w s = (Inl e, s')" "r = Inl e"
  | (load_raised) e s1 where "connect w s = (Inr (), s1)" "load_data w s1 = (Inl e, s')" "r = Inl e"
  | (clear_raised) e s1 s2 where "connect w s = (Inr (), s1)" "load_data w s1 = (Inr (), s2)"
      "clear_database w s2 = (Inl e, s')" "r = Inl e"
  | (nodes_raised) e s1 s2 s3 where "connect w s = (Inr (), s1)" "load_data w s1 = (Inr (), s2)"
      "clear_database w s2 = (Inr (), s3)" "create_nodes w s3 = (Inl e, s')" "r = Inl e"
  | (inspections_raised) e s1 s2 s3 s4 where "connect w s = (Inr (), s1)"
      "load_data w s1 = (Inr (), s2)" "clear_database w s2 = (Inr (), s3)"
      "create_nodes w s3 = (Inr (), s4)"
      "create_inspections_and_relationships w s4 = (Inl e, s')" "r = Inl e"
  | (stats_raised) e s1 s2 s3 s4 s5 where "connect w s = (Inr (), s1)"
      "load_data w s1 = (Inr (), s2)" "clear_database w s2 = (Inr (), s3)"
      "create_nodes w s3 = (Inr (), s4)"
      "create_inspections_and_relationships w s4 = (Inr (), s5)"
      "get_stats w s5 = (Inl e, s')" "r = Inl e"
  | (completed) s1 s2 s3 s4 s5 s6 s7 where "connect w s = (Inr (), s1)"
      "load_data w s1 = (Inr (), s2)" "clear_database w s2 = (Inr (), s3)"
      "create_nodes w s3 = (Inr (), s4)"
      "create_inspections_and_relationships w s4 = (Inr (), s5)"
      "get_stats w s5 = (Inr (), s6)" "create_projection w s6 = (Inr (), s7)"
      "s' = print (Log LogCompleted) s7" "r = Inr ()"
proof -
  obtain r1 s1 where c1: "connect w s = (r1, s1)" by (cases "connect w s")
  obtain r2 s2 where c2: "load_data w s1 = (r2, s2)" by (cases "load_data w s1")
  obtain r3 s3 where c3: "clear_database w s2 = (r3, s3)" by (cases "clear_database w s2")
  obtain r4 s4 where c4: "create_nodes w s3 = (r4, s4)" by (cases "create_nodes w s3")
  obtain r5 s5 where c5: "create_inspections_and_relationships w s4 = (r5, s5)"
    by (cases "create_inspections_and_relationships w s4")
  obtain r6 s6 where c6: "get_stats w s5 = (r6, s6)" by (cases "get_stats w s5")
  obtain r7 s7 where c7: "create_projection w s6 = (r7, s7)" by (cases "create_projection w s6")
  have r7: "r7 = Inr ()" using c7 by (simp add: create_projection_def)
  show thesis
  proof (cases r1)
    case (Inl e)
    with assms c1 show ?thesis by (intro connect_raised[of e]) (simp_all add: pipeline_def and_then_def)
  next
    case i1: (Inr u1)
    show ?thesis
    proof (cases r2)
      case (Inl e)
      with assms c1 c2 i1 show ?thesis
        by (intro load_raised[of s1 e]) (simp_all add: pipeline_def and_then_def)
    next
      case i2: (Inr u2)
      show ?thesis
      proof (cases r3)
        case (Inl e)
        with assms c1 c2 c3 i1 i2 show ?thesis
          by (intro clear_raised[of s1 s2 e]) (simp_all add: pipeline_def and_then_def)
      next
        case i3: (Inr u3)
        show ?thesis
        proof (cases r4)
          case (Inl e)
          with assms c1 c2 c3 c4 i1 i2 i3 show ?thesis
            by (intro nodes_raised[of s1 s2 s3 e]) (simp_all add: pipeline_def and_then_def)
        next
          case i4: (Inr u4)
          show ?thesis
          proof (cases r5)
            case (Inl e)
            with assms c1 c2 c3 c4 c5 i1 i2 i3 i4 show ?thesis
              by (intro inspections_raised[of s1 s2 s3 s4 e]) (simp_all add: pipeline_def and_then_def)
          next
            case i5: (Inr u5)
            show ?thesis
            proof (cases r6)
              case (Inl e)
              with assms c1 c2 c3 c4 c5 c6 i1 i2 i3 i4 i5 show ?thesis
                by (intro stats_raised[of s1 s2 s3 s4 s5 e]) (simp_all add: pipeline_def and_then_def)
            next
              case i6: (Inr u6)
              with assms c1 c2 c3 c4 c5 c6 c7 r7 i1 i2 i3 i4 i5 show ?thesis
                by (intro completed[of s1 s2 s3 s4 s5 s6 s7]) (simp_all add: pipeline_def and_then_def)
            qed
          qed
        qed
      qed
    qed
  qed
qed

lemma extends_mono: "extends P s s' \<Longrightarrow> (\<And>x. P x \<Longrightarrow> Q x) \<Longrightarrow> extends Q s s'"
  by (auto simp: extends_def list_all_iff)

lemma adds_print_facts:
  assumes "adds P (print m s) s'"
  shows "extends P s s'" "out s' = out s @ [m]" "df s' = df s" "cursor s' = cursor s"
    "connection s' = connection s" "pgx_session s' = pgx_session s" "graph s' = graph s"
    "csv_path s' = csv_path s"
  using assms by (auto simp: adds_def extends_def print_def)

lemma is_int_cell_iff: "is_int_cell c \<longleftrightarrow> (\<exists>i. c = Num (NInt i))"
  by (cases c rule: is_int_cell.cases) auto

lemma pipeline_extends:
  assumes run: "pipeline w s = (r, s')"
    and pc: "\<And>e x. connect_event e \<Longrightarrow> P (e, x)"
    and pr: "\<And>path x. P (ReadCsv path, x)"
    and pd: "\<And>t x. P (Execute AnalyzerConn (delete_sql t) [], x)"
    and pm: "\<And>x. P (Commit AnalyzerConn, x)"
    and pn: "\<And>q p x. q \<in> set node_statements \<Longrightarrow> length p = placeholder_count q \<Longrightarrow>
              P (Execute AnalyzerConn q p, x)"
    and pi: "\<And>d row p x. integer_column ''TARGET_PROXY'' d \<Longrightarrow> row \<in> set (rows d) \<Longrightarrow>
              inspection_params w (columns d) row = Inr p \<Longrightarrow>
              P (Execute AnalyzerConn insert_inspections_sql p, x)"
    and pe: "\<And>q p x. q \<in> set edge_statements \<Longrightarrow> length p = 2 \<Longrightarrow> P (Execute AnalyzerConn q p, x)"
    and ps: "\<And>t x. P (Execute AnalyzerConn (count_sql t) [], x)"
    and pf: "\<And>x. P (Fetchone AnalyzerConn, x)"
  shows "extends P s s'"
proof -
  have e1: "extends P a b" if "connect w a = (ra, b)" for a b ra
  proof (rule extends_mono[OF connect_effect(1)[OF that]])
    fix x :: observed
    assume "connect_event (fst x)"
    then show "P x" using pc[of "fst x" "snd x"] by simp
  qed
  have e2: "extends P a b" if "load_data w a = (ra, b)" for a b ra
    using load_data_effect(1)[OF that] by (simp add: extends_def pr)
  have e3: "extends P a b \<and> df b = df a" if "clear_database w a = (ra, b)" for a b ra
    using adds_print_facts(1,3)[OF adds_clear_database[of P a w, OF pd pm]] that by simp
  have e4: "extends P a b \<and> df b = df a" if "create_nodes w a = (ra, b)" for a b ra
    using adds_print_facts(1,3)[OF adds_create_nodes[of P a w, OF pm pn]] that by simp
  have e5: "extends P a b" if "create_inspections_and_relationships w a = (ra, b)"
    "df a = Some d" "integer_column ''TARGET_PROXY'' d" for a b ra d
    using adds_print_facts(1)[OF adds_create_inspections[of a d P w, OF that(2) pm pi[OF that(3)] pe]] that(1)
    by simp
  have e6: "extends P a b" if "get_stats w a = (ra, b)" for a b ra
    using adds_print_facts(1)[OF adds_get_stats[of P a w, OF ps pf]] that by simp
  have e7: "extends P a b" if "create_projection w a = (ra, b)" for a b ra
    using create_projection_effect(2)[OF that] by (simp add: extends_def)
  from run show ?thesis
  proof (cases rule: pipeline_cases)
    case (connect_raised e)
    then show ?thesis using e1 by blast
  next
    case (load_raised e s1)
    from e1[OF load_raised(1)] e2[OF load_raised(2)] show ?thesis by (meson extends_trans)
  next
    case (clear_raised e s1 s2)
    from e1[OF clear_raised(1)] e2[OF clear_raised(2)] e3[OF clear_raised(3)]
    show ?thesis by (meson extends_trans)
  next
    case (nodes_raised e s1 s2 s3)
    from e1[OF nodes_raised(1)] e2[OF nodes_raised(2)] e3[OF nodes_raised(3)] e4[OF nodes_raised(4)]
    show ?thesis by (meson extends_trans)
  next
    case (inspections_raised e s1 s2 s3 s4)
    from load_data_integer_target[OF inspections_raised(2)] obtain d where
      d: "df s2 = Some d" "integer_column ''TARGET_PROXY'' d" by blast
    have "df s4 = Some d" using e3[OF inspections_raised(3)] e4[OF inspections_raised(4)] d(1) by simp
    from e5[OF inspections_raised(5) this d(2)]
      e1[OF inspections_raised(1)] e2[OF inspections_raised(2)] e3[OF inspections_raised(3)]
      e4[OF inspections_raised(4)]
    show ?thesis by (meson extends_trans)
  next
    case (stats_raised e s1 s2 s3 s4 s5)
    from load_data_integer_target[OF stats_raised(2)] obtain d where
      d: "df s2 = Some d" "integer_column ''TARGET_PROXY'' d" by blast
    have "df s4 = Some d" using e3[OF stats_raised(3)] e4[OF stats_raised(4)] d(1) by simp
    from e5[OF stats_raised(5) this d(2)]
      e1[OF stats_raised(1)] e2[OF stats_raised(2)] e3[OF stats_raised(3)]
      e4[OF stats_raised(4)] e6[OF stats_raised(6)]
    show ?thesis by (meson extends_trans)
  next
    case (completed s1 s2 s3 s4 s5 s6 s7)
    from load_data_integer_target[OF completed(2)] obtain d where
      d: "df s2 = Some d" "integer_column ''TARGET_PROXY'' d" by blast
    have "df s4 = Some d" using e3[OF completed(3)] e4[OF completed(4)] d(1) by simp
    from e5[OF completed(5) this d(2)]
      e1[OF completed(1)] e2[OF completed(2)] e3[OF completed(3)]
      e4[OF completed(4)] e6[OF completed(6)] e7[OF completed(7)]
    have "extends P s s7" by (meson extends_trans)
    then show ?thesis unfolding completed(8) by (rule extends_print_right)
  qed
qed

section \<open>A run of the pipeline on the example CSV\<close>

text \<open>The whole run on \<open>pest_csv\<close> in a world where no call raises: the result, the
  trace and the log.\<close>

lemmas analyzer_eval =
  run_full_analysis_def pipeline_def connect_def max_retries_def retry_delay_def pgx_probe_def
  try_connect_def call_def sleep_def print_def and_then_def Let_def upt_conv_Cons
  load_data_def read_csv_def column_def first_row_is_header_def item_def drop_first_row_def
  convert_column_def convert_cell_def to_numeric_def fillna0_def numeric_columns_def
  clear_database_def clear_order_def cursor_execute_def connection_commit_def
  create_nodes_def the_frame_def lift_def unique_def entity_params_def country_params_def
  month_params_def target_params_def cm_id_def
  create_inspections_and_relationships_def inspection_params_def str_item_def int_item_def
  is_one_item_def select_distinct_def shipped_in_params_def is_from_params_def
  has_weather_params_def has_inspection_result_params_def
  get_stats_def edge_tables_def cursor_fetch_count_def fetch_count_def create_projection_def
  close_def cleanup_def
  csv_world_def quiet_world_def new_analyzer_def pest_csv_def pest_columns_def row_of_def
  parse_small_def

lemma csv_run:
  "\<exists>d. run_full_analysis csv_world new_analyzer =
     (Inr (),
      \<lparr>trace =
         [(DbConnect 1, None), (OpenCursor AnalyzerConn, None),
          (HttpRequest GET ''http://oracle-db:7007/version'' None, None),
          (ReadCsv ''/app/data/pest_data.csv'', None),
          (Execute AnalyzerConn (delete_sql ''has_inspection_result_edges'') [], None),
          (Execute AnalyzerConn (delete_sql ''has_weather_edges'') [], None),
          (Execute AnalyzerConn (delete_sql ''is_from_edges'') [], None),
          (Execute AnalyzerConn (delete_sql ''shipped_in_edges'') [], None),
          (Execute AnalyzerConn (delete_sql ''inspections'') [], None),
          (Execute AnalyzerConn (delete_sql ''country_months'') [], None),
          (Execute AnalyzerConn (delete_sql ''target_proxies'') [], None),
          (Execute AnalyzerConn (delete_sql ''months'') [], None),
          (Execute AnalyzerConn (delete_sql ''countries'') [], None),
          (Execute AnalyzerConn (delete_sql ''entities'') [], None),
          (Commit AnalyzerConn, None),
          (Execute AnalyzerConn insert_entities_sql [Str ''E1'', Str ''inspection_entity''], None),
          (Execute AnalyzerConn insert_entities_sql [Str ''E2'', Str ''inspection_entity''], None),
          (Execute AnalyzerConn insert_countries_sql [Str ''MX'', Str ''MX''], None),
          (Execute AnalyzerConn insert_months_sql [Str ''Jan'', Num (NInt 1)], None),
          (Execute AnalyzerConn insert_months_sql [Str ''Feb'', Num (NInt 2)], None),
          (Execute AnalyzerConn insert_target_proxies_sql [Num (NInt 1), Str ''pest''], None),
          (Execute AnalyzerConn insert_target_proxies_sql [Num (NInt 0), Str ''no_pest''], None),
          (Execute AnalyzerConn insert_country_months_sql [Str ''MX_Jan'', Str ''MX'', Str ''Jan''], None),
          (Execute AnalyzerConn insert_country_months_sql [Str ''MX_Feb'', Str ''MX'', Str ''Feb''], None),
          (Commit AnalyzerConn, None),
          (Execute AnalyzerConn insert_inspections_sql
             [Str ''E1'', Str ''MX'', Str ''Jan'', Num (NInt 1), Num (NInt 3), Num (NInt 1),
              Num (NInt 5), Num (NInt 2), Num (NInt 5), Num (NInt 2), Num (NInt 1)], None),
          (Execute AnalyzerConn insert_inspections_sql
             [Str ''E2'', Str ''MX'', Str ''Feb'', Num (NInt 0), Num (NInt 2), Num (NInt 0),
              Num (NInt 2), Num (NInt 0), Num (NInt 3), Num (NInt 0), Num (NInt 0)], None),
          (Commit AnalyzerConn, None),
          (Execute AnalyzerConn insert_shipped_in_sql [Str ''E1'', Str ''Jan''], None),
          (Execute AnalyzerConn insert_shipped_in_sql [Str ''E2'', Str ''Feb''], None),
          (Execute AnalyzerConn insert_is_from_sql [Str ''E1'', Str ''MX''], None),
          (Execute AnalyzerConn insert_is_from_sql [Str ''E2'', Str ''MX''], None),
          (Execute AnalyzerConn insert_has_weather_sql [Str ''E1'', Str ''MX_Jan''], None),
          (Execute AnalyzerConn insert_has_weather_sql [Str ''E2'', Str ''MX_Feb''], None),
          (Execute AnalyzerConn insert_has_inspection_result_sql [Str ''E1'', Num (NInt 1)], None),
          (Execute AnalyzerConn insert_has_inspection_result_sql [Str ''E2'', Num (NInt 0)], None),
          (Commit AnalyzerConn, None),
          (Execute AnalyzerConn (count_sql ''entities'') [], None),
          (Fetchone AnalyzerConn, None),
          (Execute AnalyzerConn (count_sql ''inspections'') [], None),
          (Fetchone AnalyzerConn, None),
          (Execute AnalyzerConn (count_sql ''shipped_in_edges'') [], None),
          (Fetchone AnalyzerConn, None),
          (Execute AnalyzerConn (count_sql ''is_from_edges'') [], None),
          (Fetchone AnalyzerConn, None),
          (Execute AnalyzerConn (count_sql ''has_weather_edges'') [], None),
          (Fetchone AnalyzerConn, None),
          (Execute AnalyzerConn (count_sql ''has_inspection_result_edges'') [], None),
          (Fetchone AnalyzerConn, None),
          (CloseCursor AnalyzerConn, None), (CloseConn AnalyzerConn, None)],
       out =
         [Log LogStarting, Log LogConnecting, Log (LogLoading ''/app/data/pest_data.csv''),
          Log LogClearing, Log LogCreatingNodes, Log (LogCreatingInspections 2),
          Log LogGatheringStats, Log LogGraphLoaded, Log LogCompleted, Log LogConnectionClosed],
       csv_path = ''/app/data/pest_data.csv'', pgx_base_url = ''http://oracle-db:7007'',
       connection = Some 1, cursor = Some 1, pgx_session = False, graph = False,
       df = Some d\<rparr>)"
  by (simp add: analyzer_eval)

section \<open>The rows of the inspections table\<close>

lemma inspection_params_consistent:
  assumes "integer_column ''TARGET_PROXY'' d" "row \<in> set (rows d)"
    "inspection_params w (columns d) row = Inr p"
  shows "has_pest_consistent p"
proof -
  from assms(1,2) obtain i where i: "row ''TARGET_PROXY'' = Num (NInt i)"
    and c: "''TARGET_PROXY'' \<in> set (columns d)"
    by (auto simp: integer_column_def list_all_iff is_int_cell_iff)
  have a: "int_item w (columns d) row ''TARGET_PROXY'' = Inr (Num (NInt i))"
    by (simp add: int_item_def item_def c i)
  have b: "is_one_item (columns d) row ''TARGET_PROXY'' = Inr (Num (NInt (if i = 1 then 1 else 0)))"
    by (simp add: is_one_item_def item_def c i)
  let ?xs = "[str_item w (columns d) row ''ENTY_ID'', str_item w (columns d) row ''CTRY_CODE'',
             str_item w (columns d) row ''MONTH'', int_item w (columns d) row ''TARGET_PROXY'',
             int_item w (columns d) row ''ENTY_EXAMS_30D'', int_item w (columns d) row ''ENTY_PESTS_30D'',
             int_item w (columns d) row ''ENTY_EXAMS_90D'', int_item w (columns d) row ''ENTY_PESTS_90D'',
             int_item w (columns d) row ''ENTY_EXAMS_1YR'', int_item w (columns d) row ''ENTY_PESTS_1YR'',
             is_one_item (columns d) row ''TARGET_PROXY'']"
  from assms(3) have sq: "sequence ?xs = Inr p"
    by (auto simp: inspection_params_def split: sum.splits)
  from sequence_Inr[OF sq] have len: "length p = 11"
    and nth: "\<And>k. k < length ?xs \<Longrightarrow> ?xs ! k = Inr (p ! k)"
    by simp_all
  from nth[of 3] have n3: "int_item w (columns d) row ''TARGET_PROXY'' = Inr (p ! 3)"
    by simp
  from nth[of 10] have n10: "is_one_item (columns d) row ''TARGET_PROXY'' = Inr (p ! 10)"
    by simp
  from n3 a have p3: "p ! 3 = Num (NInt i)" by simp
  from n10 b have p10: "p ! 10 = Num (NInt (if i = 1 then 1 else 0))" by simp
  show ?thesis
    unfolding has_pest_consistent_def using len p3 p10 by simp
qed

lemma other_statements_differ:
  "delete_sql t \<noteq> insert_inspections_sql"
  "count_sql t \<noteq> insert_inspections_sql"
  "q \<in> set node_statements \<Longrightarrow> q \<noteq> insert_inspections_sql"
  "q \<in> set edge_statements \<Longrightarrow> q \<noteq> insert_inspections_sql"
  by (auto simp: delete_sql_def count_sql_def insert_inspections_sql_def newline_def
      node_statements_def edge_statements_def insert_entities_sql_def insert_countries_sql_def
      insert_months_sql_def insert_target_proxies_sql_def insert_country_months_sql_def
      insert_shipped_in_sql_def insert_is_from_sql_def insert_has_weather_sql_def
      insert_has_inspection_result_sql_def)

lemma run_full_analysis_extends:
  assumes run: "run_full_analysis w s = (r, s')"
    and pc: "\<And>e x. connect_event e \<Longrightarrow> P (e, x)"
    and pr: "\<And>path x. P (ReadCsv path, x)"
    and pd: "\<And>t x. P (Execute AnalyzerConn (delete_sql t) [], x)"
    and pm: "\<And>x. P (Commit AnalyzerConn, x)"
    and pn: "\<And>q p x. q \<in> set node_statements \<Longrightarrow> length p = placeholder_count q \<Longrightarrow>
              P (Execute AnalyzerConn q p, x)"
    and pi: "\<And>d row p x. integer_column ''TARGET_PROXY'' d \<Longrightarrow> row \<in> set (rows d) \<Longrightarrow>
              inspection_params w (columns d) row = Inr p \<Longrightarrow>
              P (Execute AnalyzerConn insert_inspections_sql p, x)"
    and pe: "\<And>q p x. q \<in> set edge_statements \<Longrightarrow> length p = 2 \<Longrightarrow> P (Execute AnalyzerConn q p, x)"
    and ps: "\<And>t x. P (Execute AnalyzerConn (count_sql t) [], x)"
    and pf: "\<And>x. P (Fetchone AnalyzerConn, x)"
    and pz: "\<And>e x. close_event e \<Longrightarrow> P (e, x)"
  shows "extends P s s'"
proof -
  obtain r1 s1 where p: "pipeline w (print (Log LogStarting) s) = (r1, s1)"
    by (cases "pipeline w (print (Log LogStarting) s)")
  have a: "extends P s s1"
    by (rule extends_print_left[OF pipeline_extends[OF p pc pr pd pm pn pi pe ps pf]])
  have cl: "extends P a (close w a)" for a
  proof (rule extends_mono[OF close_extends])
    fix x :: observed
    assume "close_event (fst x)"
    then show "P x" using pz[of "fst x" "snd x"] by simp
  qed
  show ?thesis
  proof (cases r1)
    case (Inl e)
    with run p have s': "s' = close w (print (Log (LogFailed e)) s1)"
      by (simp add: run_full_analysis_def)
    have "extends P s (print (Log (LogFailed e)) s1)" using a by (rule extends_print_right)
    then show ?thesis unfolding s' using cl by (meson extends_trans)
  next
    case (Inr u)
    with run p have s': "s' = close w s1" by (simp add: run_full_analysis_def)
    show ?thesis unfolding s' using a cl by (meson extends_trans)
  qed
qed

lemma execute_calls_list_all:
  assumes "list_all P tr" "\<And>c q p x. P (Execute c q p, x) \<Longrightarrow> Q (c, q, p)"
  shows "list_all Q (execute_calls tr)"
  using assms(1)
proof (induction tr)
  case Nil
  then show ?case by (simp add: execute_calls_simps)
next
  case (Cons ob tr)
  obtain e x where ob: "ob = (e, x)" by (cases ob)
  from Cons show ?case
    by (cases e) (auto simp: execute_calls_simps ob intro: assms(2))
qed

text \<open>
  Claim C10. In every run of \<^verbatim>\<open>run_full_analysis\<close>, whatever the CSV holds and
  whatever the database answers, every INSERT into \<^verbatim>\<open>inspections\<close> that is executed
  has eleven parameters, an integer \<^verbatim>\<open>target_proxy\<close>, and a \<^verbatim>\<open>has_pest\<close> that is 0
  or 1 and is 1 exactly when \<^verbatim>\<open>target_proxy\<close> is 1.
\<close>

theorem inspections_has_pest_consistent:
  assumes "run_full_analysis w s = (r, s')"
  shows "list_all (\<lambda>(c, q, p). q = insert_inspections_sql \<longrightarrow> has_pest_consistent p)
           (execute_calls (new_events s s'))"
proof -
  define P :: "observed \<Rightarrow> bool" where
    "P = (\<lambda>ob. case fst ob of Execute c q p \<Rightarrow> q = insert_inspections_sql \<longrightarrow> has_pest_consistent p
                | _ \<Rightarrow> True)"
  have "extends P s s'"
  proof (rule run_full_analysis_extends[OF assms])
    show "P (e, x)" if "connect_event e" for e x using that by (cases e) (simp_all add: P_def)
    show "P (e, x)" if "close_event e" for e x using that by (cases e) (simp_all add: P_def)
    show "P (Execute AnalyzerConn insert_inspections_sql p, x)"
      if "integer_column ''TARGET_PROXY'' d" "row \<in> set (rows d)"
        "inspection_params w (columns d) row = Inr p" for d row p x
      using inspection_params_consistent[OF that] by (simp add: P_def)
  qed (simp_all add: P_def other_statements_differ)
  then have "list_all P (new_events s s')" by (rule extends_new_events)
  then show ?thesis
    by (rule execute_calls_list_all) (simp add: P_def)
qed

theorem inspections_has_pest_consistent_witness:
  "fst (run_full_analysis csv_world new_analyzer) = Inr () \<and>
   filter (\<lambda>(c, q, p). q = insert_inspections_sql)
     (execute_calls (trace (snd (run_full_analysis csv_world new_analyzer)))) =
   [(AnalyzerConn, insert_inspections_sql,
     [Str ''E1'', Str ''MX'', Str ''Jan'', Num (NInt 1), Num (NInt 3), Num (NInt 1), Num (NInt 5),
      Num (NInt 2), Num (NInt 5), Num (NInt 2), Num (NInt 1)]),
    (AnalyzerConn, insert_inspections_sql,
     [Str ''E2'', Str ''MX'', Str ''Feb'', Num (NInt 0), Num (NInt 2), Num (NInt 0), Num (NInt 2),
      Num (NInt 0), Num (NInt 3), Num (NInt 0), Num (NInt 0)])] \<and>
   list_all (\<lambda>(c, q, p). has_pest_consistent p)
     (filter (\<lambda>(c, q, p). q = insert_inspections_sql)
        (execute_calls (trace (snd (run_full_analysis csv_world new_analyzer)))))"
proof -
  obtain d where run: "run_full_analysis csv_world new_analyzer = (Inr (), d)"
    using csv_run by blast
  have ne: "new_events new_analyzer d = trace d"
    by (simp add: new_events_def new_analyzer_def)
  have f: "filter (\<lambda>(c, q, p). q = insert_inspections_sql) (execute_calls (trace d)) =
   [(AnalyzerConn, insert_inspections_sql,
     [Str ''E1'', Str ''MX'', Str ''Jan'', Num (NInt 1), Num (NInt 3), Num (NInt 1), Num (NInt 5),
      Num (NInt 2), Num (NInt 5), Num (NInt 2), Num (NInt 1)]),
    (AnalyzerConn, insert_inspections_sql,
     [Str ''E2'', Str ''MX'', Str ''Feb'', Num (NInt 0), Num (NInt 2), Num (NInt 0), Num (NInt 2),
      Num (NInt 0), Num (NInt 3), Num (NInt 0), Num (NInt 0)])]"
    using csv_run run
    by (auto simp: execute_calls_simps other_statements_differ node_statements_def edge_statements_def)
  from inspections_has_pest_consistent[OF run]
  have "list_all (\<lambda>(c, q, p). q = insert_inspections_sql \<longrightarrow> has_pest_consistent p)
      (execute_calls (trace d))"
    by (simp add: ne)
  then have "list_all (\<lambda>(c, q, p). has_pest_consistent p)
     (filter (\<lambda>(c, q, p). q = insert_inspections_sql) (execute_calls (trace d)))"
    by (auto simp: list_all_iff)
  with f run show ?thesis by simp
qed

section \<open>The statements that write the graph tables\<close>

lemma new_events_print: "new_events (print m s) s' = new_events s s'"
  by (simp add: new_events_def print_def)

lemma statements_subset:
  assumes "list_all P tr" "\<And>e x q. P (e, x) \<Longrightarrow> statement_of e = Some q \<Longrightarrow> q \<in> A"
  shows "set (statements tr) \<subseteq> A"
  using assms(1)
proof (induction tr)
  case Nil
  then show ?case by (simp add: statements_def)
next
  case (Cons ob tr)
  obtain e x where ob: "ob = (e, x)" by (cases ob)
  from Cons have "set (statements tr) \<subseteq> A" by simp
  moreover have "set (case statement_of e of Some q \<Rightarrow> [q] | None \<Rightarrow> []) \<subseteq> A"
    using Cons.prems assms(2)[of e x] by (auto simp: ob split: option.splits)
  ultimately show ?case by (simp add: statements_def ob)
qed

lemma inspection_params_length: "inspection_params w cols row = Inr p \<Longrightarrow> length p = 11"
  by (auto simp: inspection_params_def split: sum.splits dest!: sequence_Inr)

lemma write_event_statements:
  assumes "list_all (write_event A) tr"
  shows "set (statements tr) \<subseteq> A"
    "list_all (\<lambda>(c, q, p). length p = placeholder_count q) (execute_calls tr)"
proof -
  show "set (statements tr) \<subseteq> A"
  proof (rule statements_subset[OF assms])
    fix e x q assume "write_event A (e, x)" "statement_of e = Some q"
    then show "q \<in> A" by (cases e) (auto simp: write_event_def)
  qed
  show "list_all (\<lambda>(c, q, p). length p = placeholder_count q) (execute_calls tr)"
    by (rule execute_calls_list_all[OF assms]) (simp add: write_event_def)
qed

lemma create_nodes_writes:
  "list_all (write_event (set node_statements)) (new_events s (snd (create_nodes w s)))"
proof -
  have "adds (write_event (set node_statements)) (print (Log LogCreatingNodes) s) (snd (create_nodes w s))"
    by (rule adds_create_nodes) (simp_all add: write_event_def)
  from adds_new_events[OF this] show ?thesis by (simp add: new_events_print)
qed

lemma create_inspections_writes:
  "list_all (write_event (set (insert_inspections_sql # edge_statements)))
     (new_events s (snd (create_inspections_and_relationships w s)))"
proof (cases "df s")
  case None
  then show ?thesis by (simp add: create_inspections_no_frame new_events_def)
next
  case (Some d)
  have "adds (write_event (set (insert_inspections_sql # edge_statements)))
      (print (Log (LogCreatingInspections (length (rows d)))) s)
      (snd (create_inspections_and_relationships w s))"
  proof (rule adds_create_inspections[OF Some])
    show "write_event (set (insert_inspections_sql # edge_statements)) (Commit AnalyzerConn, x)" for x
      by (simp add: write_event_def)
    show "write_event (set (insert_inspections_sql # edge_statements))
        (Execute AnalyzerConn insert_inspections_sql p, x)"
      if "inspection_params w (columns d) row = Inr p" for row p x
      using inspection_params_length[OF that] by (simp add: write_event_def placeholder_counts)
    show "write_event (set (insert_inspections_sql # edge_statements)) (Execute AnalyzerConn q p, x)"
      if "q \<in> set edge_statements" "length p = 2" for q p x
      using that by (auto simp: write_event_def edge_statements_def placeholder_counts)
  qed
  from adds_new_events[OF this] show ?thesis by (simp add: new_events_print)
qed

lemma placeholder_count_delete: "placeholder_count (delete_sql t) = placeholder_count t"
  by (simp add: placeholder_count_def delete_sql_def)

lemma clear_tables_writes:
  "adds (\<lambda>ob. \<exists>t \<in> set ts. fst ob = Execute AnalyzerConn (delete_sql t) []) s (clear_tables w ts s)"
proof (induction ts arbitrary: s)
  case Nil
  then show ?case by (simp add: adds_refl)
next
  case (Cons t ts)
  have a: "adds (\<lambda>ob. \<exists>t' \<in> set (t # ts). fst ob = Execute AnalyzerConn (delete_sql t') []) s
      (snd (cursor_execute w (delete_sql t) [] s))"
    by (rule adds_cursor_execute) simp
  have b: "adds (\<lambda>ob. \<exists>t' \<in> set (t # ts). fst ob = Execute AnalyzerConn (delete_sql t') [])
      (snd (cursor_execute w (delete_sql t) [] s))
      (clear_tables w ts (snd (cursor_execute w (delete_sql t) [] s)))"
    by (rule adds_mono[OF Cons.IH]) auto
  show ?case
    using adds_trans[OF a b] by (cases "cursor_execute w (delete_sql t) [] s") simp
qed

lemma clear_database_writes:
  "list_all (\<lambda>ob. fst ob = Commit AnalyzerConn \<or>
              (\<exists>t \<in> set clear_order. fst ob = Execute AnalyzerConn (delete_sql t) []))
     (new_events s (snd (clear_database w s)))"
proof -
  let ?P = "\<lambda>ob. fst ob = Commit AnalyzerConn \<or>
              (\<exists>t \<in> set clear_order. fst ob = Execute AnalyzerConn (delete_sql t) [])"
  have a: "adds ?P (print (Log LogClearing) s) (clear_tables w clear_order (print (Log LogClearing) s))"
    by (rule adds_mono[OF clear_tables_writes]) auto
  have b: "adds ?P (clear_tables w clear_order (print (Log LogClearing) s)) (snd (clear_database w s))"
    unfolding clear_database_def by (rule adds_connection_commit) simp
  from adds_new_events[OF adds_trans[OF a b]] show ?thesis by (simp add: new_events_print)
qed

end
